theory Spec2Isabelle
  imports Complex_Main "HOL-Library.Monad_Syntax"
begin

section \<open>Conventions of the embedding\<close>

text \<open>
  The scoring core of GlobalTrustHub is a set of Python functions over numbers, strings,
  lists and dictionaries. The embedding keeps the source's names and case order.

  \<^item> A Python \<^verbatim>\<open>float\<close> is an IEEE binary64 number, embedded as the \<^typ>\<open>real\<close> it
    denotes. The aggregator \<^verbatim>\<open>calculate_total_score\<close>, \<^verbatim>\<open>get_trust_level\<close> and
    \<^verbatim>\<open>calculate_inactivity_decay\<close> (whose \<^verbatim>\<open>math.exp\<close> binary64 does not specify)
    are embedded in exact arithmetic. Every other function rounds as the code does: an
    arithmetic operation on floats is the exact operation followed by the rounding
    \<open>b64\<close> (to nearest, ties to even), and a float literal is \<open>b64\<close> of its decimal
    (a literal that is itself a binary64 number, such as 0.0, 1.5 or 200, is written as
    it is).
    Results beyond the largest binary64 number, where the code yields \<^verbatim>\<open>inf\<close> or,
    converting an \<^verbatim>\<open>int\<close>, raises \<^verbatim>\<open>OverflowError\<close>, are outside the embedding.
  \<^item> A Python \<^verbatim>\<open>int\<close> is an \<^typ>\<open>int\<close> or, where it counts the elements of a list,
    a \<^typ>\<open>nat\<close>.
  \<^item> A dictionary whose order matters is an association list; a subscript
    \<^verbatim>\<open>d[k]\<close> is a lookup that can fail, and failure (the \<^verbatim>\<open>KeyError\<close> of the
    source) is the value \<open>None\<close>.
  \<^item> \<^verbatim>\<open>datetime.utcnow()\<close> is an explicit argument \<open>now\<close>; a naive datetime is
    its number of microseconds since the epoch.
\<close>

type_synonym datetime = int


text \<open>\<^verbatim>\<open>d[k]\<close> on a dictionary given as an association list.\<close>

definition getitem :: "('k \<times> 'v) list \<Rightarrow> 'k \<Rightarrow> 'v option" where
  "getitem d k = map_of d k"

text \<open>\<^verbatim>\<open>d.get(k, default)\<close>.\<close>

definition get_default :: "('k \<times> 'v) list \<Rightarrow> 'k \<Rightarrow> 'v \<Rightarrow> 'v" where
  "get_default d k dflt = (case map_of d k of None \<Rightarrow> dflt | Some v \<Rightarrow> v)"


section \<open>Binary64 arithmetic\<close>

text \<open>Rounding a real to the nearest integer, a tie going to the even one.\<close>

definition round_half_even :: "real \<Rightarrow> int" where
  "round_half_even y =
     (let f = \<lfloor>y\<rfloor>; r = y - of_int f
      in if r < 1 / 2 then f else if 1 / 2 < r then f + 1 else if even f then f else f + 1)"

text \<open>
  The exponent \<open>e\<close> of the unit in the last place of a magnitude \<open>a\<close>: for a normal
  number \<open>2 powi (e + 52) \<le> a < 2 powi (e + 53)\<close>, and \<open>e = -1074\<close> for the subnormal
  ones. The search starts at \<open>-52\<close>, the exponent of the magnitudes in [1, 2), and goes
  down to \<open>-1074\<close> or up to \<open>971\<close>.
\<close>

fun exp_down :: "nat \<Rightarrow> real \<Rightarrow> int \<Rightarrow> int" where
  "exp_down 0 a e = e"
| "exp_down (Suc n) a e = (if 2 powi (e + 52) \<le> a then e else exp_down n a (e - 1))"

fun exp_up :: "nat \<Rightarrow> real \<Rightarrow> int \<Rightarrow> int" where
  "exp_up 0 a e = e"
| "exp_up (Suc n) a e = (if a < 2 powi (e + 53) then e else exp_up n a (e + 1))"

definition b64_exponent :: "real \<Rightarrow> int" where
  "b64_exponent a = (if a < 1 then exp_down 1022 a (- 52) else exp_up 1023 a (- 52))"

text \<open>The binary64 number nearest to a real: a multiple of the unit in the last place.\<close>

definition b64 :: "real \<Rightarrow> real" where
  "b64 x =
     (let e = b64_exponent \<bar>x\<bar>
      in of_int (round_half_even (x / 2 powi e)) * 2 powi e)"

text \<open>The float operations \<^verbatim>\<open>+\<close>, \<^verbatim>\<open>-\<close>, \<^verbatim>\<open>*\<close> and \<^verbatim>\<open>/\<close> (the divisors of
  the source are guarded against zero), the conversion of an \<^verbatim>\<open>int\<close> operand of a
  float operation, the true division of two ints, and \<^verbatim>\<open>sum\<close> over floats, which
  starts at 0 and adds from the left with one rounding per element (CPython before 3.12;
  later versions compensate the sum).\<close>

definition fadd :: "real \<Rightarrow> real \<Rightarrow> real" where
  "fadd x y = b64 (x + y)"

definition fsub :: "real \<Rightarrow> real \<Rightarrow> real" where
  "fsub x y = b64 (x - y)"

definition fmul :: "real \<Rightarrow> real \<Rightarrow> real" where
  "fmul x y = b64 (x * y)"

definition fdiv :: "real \<Rightarrow> real \<Rightarrow> real" where
  "fdiv x y = b64 (x / y)"

definition float_of_int :: "int \<Rightarrow> real" where
  "float_of_int n = b64 (of_int n)"

definition int_truediv :: "int \<Rightarrow> int \<Rightarrow> real" where
  "int_truediv a b = b64 (of_int a / of_int b)"

definition float_sum :: "real list \<Rightarrow> real" where
  "float_sum xs = foldl fadd 0 xs"

section \<open>Trust score engine: score calculator\<close>

datatype TrustLevel = UNVERIFIED | BRONZE | SILVER | GOLD | PLATINUM

text \<open>\<^verbatim>\<open>list(TrustLevel)\<close>: the members in definition order.\<close>

definition TrustLevel_members :: "TrustLevel list" where
  "TrustLevel_members = [UNVERIFIED, BRONZE, SILVER, GOLD, PLATINUM]"

text \<open>\<^verbatim>\<open>LEVEL_THRESHOLDS\<close> has an entry for every member of the enum, so the
  subscript \<^verbatim>\<open>LEVEL_THRESHOLDS[level]\<close> is a total function.\<close>

fun LEVEL_THRESHOLDS :: "TrustLevel \<Rightarrow> real" where
  "LEVEL_THRESHOLDS UNVERIFIED = 0"
| "LEVEL_THRESHOLDS BRONZE = 200"
| "LEVEL_THRESHOLDS SILVER = 400"
| "LEVEL_THRESHOLDS GOLD = 600"
| "LEVEL_THRESHOLDS PLATINUM = 800"










text \<open>\<^verbatim>\<open>get_trust_level\<close>: the loop over \<^verbatim>\<open>reversed(list(TrustLevel))\<close> returns
  at the first level whose threshold the score reaches; after the loop the function
  returns \<^verbatim>\<open>UNVERIFIED\<close>.\<close>

fun first_level :: "real \<Rightarrow> TrustLevel list \<Rightarrow> TrustLevel" where
  "first_level score [] = UNVERIFIED"
| "first_level score (level # levels) =
     (if score \<ge> LEVEL_THRESHOLDS level then level else first_level score levels)"

definition get_trust_level :: "real \<Rightarrow> TrustLevel" where
  "get_trust_level score = first_level score (rev TrustLevel_members)"

text \<open>The order of the levels, unverified < bronze < silver < gold < platinum, as the
  position of a level in the enum.\<close>

fun level_rank :: "TrustLevel \<Rightarrow> nat" where
  "level_rank UNVERIFIED = 0"
| "level_rank BRONZE = 1"
| "level_rank SILVER = 2"
| "level_rank GOLD = 3"
| "level_rank PLATINUM = 4"


section \<open>Trust score engine: decay logic\<close>

text \<open>\<^verbatim>\<open>DecayConfig\<close>: the class attributes, with their values in
  \<open>DecayConfig_defaults\<close> (what \<^verbatim>\<open>TrustScoreDecay()\<close> uses when no config is passed).\<close>

record DecayConfig =
  INACTIVITY_THRESHOLD_DAYS :: int
  INACTIVITY_DECAY_RATE :: real
  MAX_INACTIVITY_DECAY :: real
  DOC_EXPIRY_WARNING_DAYS :: int
  DOC_EXPIRY_DECAY :: real
  NEGATIVE_REVIEW_DECAY :: real
  REPORT_DECAY :: real
  SUBSCRIPTION_LAPSE_DECAY :: real
  POSITIVE_REVIEW_RECOVERY :: real
  ACTIVITY_RECOVERY_RATE :: real
  MAX_RECOVERY_PER_WEEK :: real

definition DecayConfig_defaults :: DecayConfig where
  "DecayConfig_defaults =
     \<lparr> INACTIVITY_THRESHOLD_DAYS = 30,
       INACTIVITY_DECAY_RATE = 0.02,
       MAX_INACTIVITY_DECAY = 0.30,
       DOC_EXPIRY_WARNING_DAYS = 30,
       DOC_EXPIRY_DECAY = 0.10,
       NEGATIVE_REVIEW_DECAY = 0.02,
       REPORT_DECAY = 0.05,
       SUBSCRIPTION_LAPSE_DECAY = 0.15,
       POSITIVE_REVIEW_RECOVERY = 0.01,
       ACTIVITY_RECOVERY_RATE = 0.05,
       MAX_RECOVERY_PER_WEEK = 0.10 \<rparr>"



text \<open>A \<^verbatim>\<open>datetime\<close> is naive or carries a time zone; comparing one of each kind
  raises \<^verbatim>\<open>TypeError\<close>. \<^verbatim>\<open>datetime.utcnow()\<close> is naive.\<close>

datatype py_datetime = NaiveDatetime datetime | AwareDatetime datetime

datatype py_error = ValueError | TypeError

text \<open>A document is a dictionary read at the keys \<^verbatim>\<open>"expiry_date"\<close> and
  \<^verbatim>\<open>"type"\<close>; a missing key is \<open>None\<close>. An expiry date is a datetime or a string.\<close>

datatype expiry_value = ExpiryDatetime py_datetime | ExpiryString string

record document =
  expiry_date :: "expiry_value option"
  doc_type :: "string option"

text \<open>An entry of the list of expired documents: \<open>expired_document_type\<close> is the key
  \<^verbatim>\<open>"document_type"\<close>, and \<open>expired_at\<close> is the datetime whose
  \<^verbatim>\<open>isoformat()\<close> the source stores.\<close>

record expired_document =
  expired_document_type :: "string option"
  expired_at :: datetime
  decay_applied :: real

text \<open>The loop of \<^verbatim>\<open>calculate_document_expiry_decay\<close> over the documents, with the
  accumulators \<open>total_decay\<close> and \<open>expired_docs\<close>. A document without expiry date, or
  with the empty string (which is falsy), is skipped; a string is parsed by
  \<^verbatim>\<open>datetime.fromisoformat\<close>, a library function taken as the parameter
  \<open>fromisoformat\<close>, whose \<^verbatim>\<open>ValueError\<close> is the value \<open>None\<close>; the comparison
  \<^verbatim>\<open>expiry_date < now\<close> raises \<^verbatim>\<open>TypeError\<close> on a datetime with a time zone. An
  exception leaves the function, so the result is \<open>Inl\<close> of it.\<close>

fun expiry_loop ::
  "DecayConfig \<Rightarrow> (string \<Rightarrow> py_datetime option) \<Rightarrow> datetime \<Rightarrow> real \<Rightarrow> document list
     \<Rightarrow> real \<Rightarrow> expired_document list \<Rightarrow> py_error + (real \<times> expired_document list)" where
  "expiry_loop config fromisoformat now current_score [] total_decay expired_docs =
     Inr (total_decay, expired_docs)"
| "expiry_loop config fromisoformat now current_score (doc # documents) total_decay expired_docs =
     (case expiry_date doc of
        None \<Rightarrow>
          expiry_loop config fromisoformat now current_score documents total_decay expired_docs
      | Some v \<Rightarrow>
          if v = ExpiryString [] then
            expiry_loop config fromisoformat now current_score documents total_decay expired_docs
          else
            (case (case v of ExpiryString s \<Rightarrow> fromisoformat s | ExpiryDatetime d \<Rightarrow> Some d) of
               None \<Rightarrow> Inl ValueError
             | Some (AwareDatetime d) \<Rightarrow> Inl TypeError
             | Some (NaiveDatetime d) \<Rightarrow>
                 if d < now then
                   let decay = fmul current_score (b64 (DOC_EXPIRY_DECAY config)) in
                   expiry_loop config fromisoformat now current_score documents
                     (fadd total_decay decay)
                     (expired_docs @
                        [\<lparr> expired_document_type = doc_type doc, expired_at = d,
                           decay_applied = decay \<rparr>])
                 else
                   expiry_loop config fromisoformat now current_score documents
                     total_decay expired_docs))"

definition calculate_document_expiry_decay ::
  "DecayConfig \<Rightarrow> (string \<Rightarrow> py_datetime option) \<Rightarrow> datetime \<Rightarrow> document list \<Rightarrow> real
     \<Rightarrow> py_error + (real \<times> expired_document list)" where
  "calculate_document_expiry_decay config fromisoformat now documents current_score =
     expiry_loop config fromisoformat now current_score documents 0 []"

text \<open>The vocabulary of the specification, read off a document and not off the loop.
  The date a document states: none for a missing or empty entry, else the datetime, or
  what the string denotes in ISO format.\<close>

fun stated_expiry :: "(string \<Rightarrow> py_datetime option) \<Rightarrow> expiry_value option \<Rightarrow> py_datetime option" where
  "stated_expiry fromisoformat None = None"
| "stated_expiry fromisoformat (Some (ExpiryDatetime d)) = Some d"
| "stated_expiry fromisoformat (Some (ExpiryString s)) = (if s = [] then None else fromisoformat s)"

text \<open>An expired document states a naive date before \<open>now\<close>.\<close>

definition is_expired :: "(string \<Rightarrow> py_datetime option) \<Rightarrow> datetime \<Rightarrow> document \<Rightarrow> bool" where
  "is_expired fromisoformat now doc =
     (case stated_expiry fromisoformat (expiry_date doc) of
        Some (NaiveDatetime d) \<Rightarrow> d < now
      | _ \<Rightarrow> False)"

text \<open>A malformed document has a non-empty string that is not an ISO date; an
  incomparable one states a date with a time zone.\<close>

definition is_malformed :: "(string \<Rightarrow> py_datetime option) \<Rightarrow> document \<Rightarrow> bool" where
  "is_malformed fromisoformat doc =
     (case expiry_date doc of
        Some (ExpiryString s) \<Rightarrow> s \<noteq> [] \<and> fromisoformat s = None
      | _ \<Rightarrow> False)"

definition is_incomparable :: "(string \<Rightarrow> py_datetime option) \<Rightarrow> document \<Rightarrow> bool" where
  "is_incomparable fromisoformat doc =
     (case stated_expiry fromisoformat (expiry_date doc) of
        Some (AwareDatetime d) \<Rightarrow> True
      | _ \<Rightarrow> False)"

text \<open>The exception of the first document that is malformed or incomparable.\<close>

fun first_error :: "(string \<Rightarrow> py_datetime option) \<Rightarrow> document list \<Rightarrow> py_error option" where
  "first_error fromisoformat [] = None"
| "first_error fromisoformat (doc # documents) =
     (if is_malformed fromisoformat doc then Some ValueError
      else if is_incomparable fromisoformat doc then Some TypeError
      else first_error fromisoformat documents)"

definition expired_documents ::
  "(string \<Rightarrow> py_datetime option) \<Rightarrow> datetime \<Rightarrow> document list \<Rightarrow> document list" where
  "expired_documents fromisoformat now documents = filter (is_expired fromisoformat now) documents"

definition expired_count ::
  "(string \<Rightarrow> py_datetime option) \<Rightarrow> datetime \<Rightarrow> document list \<Rightarrow> nat" where
  "expired_count fromisoformat now documents =
     length (expired_documents fromisoformat now documents)"

text \<open>The instant of the naive date a document states (0 when it states none).\<close>

definition stated_instant :: "(string \<Rightarrow> py_datetime option) \<Rightarrow> document \<Rightarrow> datetime" where
  "stated_instant fromisoformat doc =
     (case stated_expiry fromisoformat (expiry_date doc) of
        Some (NaiveDatetime d) \<Rightarrow> d
      | _ \<Rightarrow> 0)"

text \<open>The sum the loop accumulates for \<open>n\<close> expired documents: \<open>n\<close> additions of the
  per-document decay, each rounded.\<close>

definition repeated_decay :: "nat \<Rightarrow> real \<Rightarrow> real" where
  "repeated_decay n decay = float_sum (replicate n decay)"

text \<open>Concrete values for running the decay functions: a stand-in for
  \<^verbatim>\<open>datetime.fromisoformat\<close> that reads \<open>1970-01-02\<close> as the naive datetime one day
  after the epoch, \<open>1970-01-02T00:00:00+00:00\<close> as the same instant with a time zone,
  and rejects every other string; documents that expired at the epoch, one given as a
  datetime and one as a string.\<close>

definition example_fromisoformat :: "string \<Rightarrow> py_datetime option" where
  "example_fromisoformat s =
     (if s = ''1970-01-02'' then Some (NaiveDatetime 86400000000)
      else if s = ''1970-01-02T00:00:00+00:00'' then Some (AwareDatetime 86400000000)
      else None)"

definition expired_doc :: document where
  "expired_doc = \<lparr> expiry_date = Some (ExpiryDatetime (NaiveDatetime 0)), doc_type = Some ''passport'' \<rparr>"

definition string_dated_doc :: document where
  "string_dated_doc = \<lparr> expiry_date = Some (ExpiryString ''1970-01-02''), doc_type = Some ''cnic'' \<rparr>"

definition aware_dated_doc :: document where
  "aware_dated_doc =
     \<lparr> expiry_date = Some (ExpiryString ''1970-01-02T00:00:00+00:00''), doc_type = None \<rparr>"

definition undated_doc :: document where
  "undated_doc = \<lparr> expiry_date = None, doc_type = Some ''degree'' \<rparr>"

text \<open>\<^verbatim>\<open>DecayReason\<close>.\<close>

datatype DecayReason =
  INACTIVITY | DOCUMENT_EXPIRY | NEGATIVE_REVIEW | REPORT_RECEIVED | SUBSCRIPTION_LAPSE
  | FAILED_VERIFICATION







section \<open>Scam language analysis: pattern matcher\<close>

text \<open>
  The pattern matcher calls Python's \<^verbatim>\<open>re\<close>, \<^verbatim>\<open>unicodedata\<close> and \<^verbatim>\<open>str\<close>
  methods. They are library code, not code of this repository, so the model takes them
  as a parameter \<open>lib\<close>: every theorem below holds for whatever these functions return.
  A string is a list of characters; a regular expression is the string of the source,
  with the backslash written \<open>bs\<close>.
\<close>

text \<open>An element of the list \<^verbatim>\<open>re.findall\<close> returns: a string when the pattern has
  at most one group, a tuple of strings when it has more.\<close>

datatype re_match = Match string | Groups "string list"

record pylib =
  unicodedata_normalize :: "string \<Rightarrow> string \<Rightarrow> string"
  str_lower :: "string \<Rightarrow> string"
  str_strip :: "string \<Rightarrow> string"
  str_isupper :: "char \<Rightarrow> bool"
  str_isdigit :: "char \<Rightarrow> bool"
  re_sub :: "string \<Rightarrow> string \<Rightarrow> string \<Rightarrow> string"
  re_findall :: "string \<Rightarrow> bool \<Rightarrow> string \<Rightarrow> re_match list"

text \<open>The arguments of \<open>re_sub\<close> are pattern, replacement and string; those of
  \<open>re_findall\<close> are the pattern, whether \<^verbatim>\<open>re.IGNORECASE\<close> is passed, and the
  string.\<close>

definition bs :: string where
  "bs = [CHR 0x5C]"

definition SCAM_PATTERNS :: "(string \<times> string list) list" where
  "SCAM_PATTERNS =
     [(''urgency'',
        [bs @ ''b(urgent|immediately|right now|asap|hurry|limited time)'' @ bs @ ''b'',
         bs @ ''b(act fast|don't wait|expires|deadline|today only)'' @ bs @ ''b'']),
      (''false_guarantee'',
        [bs @ ''b(100%|guaranteed|definitely|certainly|surely)'' @ bs @ ''b.*'' @ bs
            @ ''b(visa|admission|job|success)'' @ bs @ ''b'',
         bs @ ''b(no risk|risk.?free|money.?back)'' @ bs @ ''b'']),
      (''suspicious_payment'',
        [bs @ ''b(western union|moneygram|bitcoin|crypto|gift card)'' @ bs @ ''b'',
         bs @ ''b(wire transfer|advance fee|processing fee|upfront)'' @ bs @ ''b'',
         bs @ ''b(send money|transfer.*before|pay.*first)'' @ bs @ ''b'']),
      (''too_good'',
        [bs @ ''b(free visa|no documents|no test|no interview)'' @ bs @ ''b'',
         bs @ ''b(no requirements|no experience needed|easy)'' @ bs @ ''b'',
         bs @ ''b(instant approval|same day|express processing)'' @ bs @ ''b'']),
      (''pressure'',
        [bs @ ''b(only '' @ bs @ ''d+ slots?|few spots?|last chance|final offer)'' @ bs @ ''b'',
         bs @ ''b(special offer|exclusive deal|limited spots?)'' @ bs @ ''b'']),
      (''secrecy'',
        [bs @ ''b(secret|confidential|don't tell|keep private)'' @ bs @ ''b'',
         bs @ ''b(between us|just you|special arrangement)'' @ bs @ ''b'']),
      (''impersonation'',
        [bs @ ''b(official|government|embassy|authorized agent)'' @ bs @ ''b(?!.*verified)'',
         bs @ ''b(certified|licensed|accredited)'' @ bs @ ''b(?!.*verified)''])]"

definition CATEGORY_WEIGHTS :: "(string \<times> real) list" where
  "CATEGORY_WEIGHTS =
     [(''urgency'', 1.0),
      (''false_guarantee'', 1.5),
      (''suspicious_payment'', 2.0),
      (''too_good'', 1.5),
      (''pressure'', 1.0),
      (''secrecy'', 1.5),
      (''impersonation'', b64 1.2)]"

text \<open>\<^verbatim>\<open>sep.join(xs)\<close>.\<close>

fun str_join :: "string \<Rightarrow> string list \<Rightarrow> string" where
  "str_join sep [] = []"
| "str_join sep [x] = x"
| "str_join sep (x # y # ys) = x @ sep @ str_join sep (y # ys)"

definition clean_text :: "pylib \<Rightarrow> string \<Rightarrow> string" where
  "clean_text lib text0 =
     (let text1 = unicodedata_normalize lib ''NFKD'' text0;
          text2 = str_lower lib text1;
          text3 = re_sub lib (''https?://'' @ bs @ ''S+'') '' [URL] '' text2;
          text4 = re_sub lib (bs @ ''S+@'' @ bs @ ''S+'') '' [EMAIL] '' text3;
          text5 = re_sub lib (bs @ ''+?'' @ bs @ ''d['' @ bs @ ''d'' @ bs @ ''s'' @ bs @ ''-]{8,}''
                    @ bs @ ''d'') '' [PHONE] '' text4;
          text6 = re_sub lib (bs @ ''s+'') '' '' text5;
          text7 = re_sub lib ''([!?.]){2,}'' (bs @ ''1'') text6
      in str_strip lib text7)"

text \<open>The matched text of one element of a \<^verbatim>\<open>findall\<close> result: a tuple is joined
  with spaces.\<close>

fun match_text :: "re_match \<Rightarrow> string" where
  "match_text (Match m) = m"
| "match_text (Groups ms) = str_join '' '' ms"

text \<open>\<^verbatim>\<open>detect_patterns\<close>: the two nested loops append, for every category and every
  pattern of it in the order of \<^verbatim>\<open>SCAM_PATTERNS\<close>, one triple per match.\<close>

definition detect_patterns :: "pylib \<Rightarrow> string \<Rightarrow> (string \<times> string \<times> string) list" where
  "detect_patterns lib text0 =
     (let cleaned = clean_text lib text0 in
      concat (map (\<lambda>(category, patterns).
        concat (map (\<lambda>pattern.
          map (\<lambda>m. (category, match_text m, pattern)) (re_findall lib pattern True cleaned))
          patterns))
        SCAM_PATTERNS))"

text \<open>\<^verbatim>\<open>d[k] = v\<close> on an insertion-ordered dictionary: an existing key keeps its place,
  a new key goes last.\<close>

fun setitem :: "('k \<times> 'v) list \<Rightarrow> 'k \<Rightarrow> 'v \<Rightarrow> ('k \<times> 'v) list" where
  "setitem [] k v = [(k, v)]"
| "setitem ((k', v') # d) k v = (if k' = k then (k, v) # d else (k', v') # setitem d k v)"

text \<open>One round of the first loop of \<^verbatim>\<open>calculate_scam_score\<close>: a category that is not
  yet a key gets the empty list, then the matched text is appended to the category's
  list.\<close>

definition add_hit ::
  "(string \<times> string list) list \<Rightarrow> string \<times> string \<times> string \<Rightarrow> (string \<times> string list) list" where
  "add_hit category_hits m =
     (case m of (category, matched_text, pattern) \<Rightarrow>
        (case map_of category_hits category of
           None \<Rightarrow> setitem category_hits category ([] @ [matched_text])
         | Some hits \<Rightarrow> setitem category_hits category (hits @ [matched_text])))"

text \<open>An entry of the reason list: the dictionary with the keys \<^verbatim>\<open>"category"\<close>,
  \<^verbatim>\<open>"hits"\<close> and \<^verbatim>\<open>"contribution"\<close>.\<close>

record scam_reason =
  reason_category :: string
  reason_hits :: "string list"
  reason_contribution :: real

text \<open>One round of the second loop, over \<^verbatim>\<open>category_hits.items()\<close>, with the
  accumulators \<open>weighted_sum\<close> and \<open>reasons\<close>. The product
  \<^verbatim>\<open>len(hits) * weight * 0.1\<close> is two float multiplications, from the left.\<close>

definition score_category ::
  "real \<times> scam_reason list \<Rightarrow> string \<times> string list \<Rightarrow> real \<times> scam_reason list" where
  "score_category acc item =
     (case (acc, item) of ((weighted_sum, reasons), (category, hits)) \<Rightarrow>
        let weight = get_default CATEGORY_WEIGHTS category 1.0;
            category_score =
              min (fmul (fmul (float_of_int (int (length hits))) weight) (b64 0.1)) (b64 0.3)
        in (fadd weighted_sum category_score,
            reasons @ [\<lparr> reason_category = category, reason_hits = hits,
                          reason_contribution = category_score \<rparr>]))"

definition calculate_scam_score :: "pylib \<Rightarrow> string \<Rightarrow> real \<times> scam_reason list" where
  "calculate_scam_score lib text0 =
     (let matches = detect_patterns lib text0 in
      if matches = [] then (0.0, [])
      else
        let category_hits = foldl add_hit [] matches;
            (weighted_sum, reasons) = foldl score_category (0.0, []) category_hits;
            final_score = min weighted_sum 1.0
        in (final_score, reasons))"

text \<open>The vocabulary of the specification, read off the regex library and the pattern
  table and not off \<^const>\<open>detect_patterns\<close>. The regex matches of a category in a text
  are what \<^verbatim>\<open>re.findall\<close> returns, ignoring case, on the cleaned text for the patterns
  of the category, in their order; the hit count is their number; the categories with at
  least one regex match are listed in the order of the table.\<close>

definition category_matches :: "pylib \<Rightarrow> string \<Rightarrow> string \<Rightarrow> re_match list" where
  "category_matches lib text0 category =
     concat (map (\<lambda>pattern. re_findall lib pattern True (clean_text lib text0))
       (get_default SCAM_PATTERNS category []))"

definition hit_count :: "pylib \<Rightarrow> string \<Rightarrow> string \<Rightarrow> nat" where
  "hit_count lib text0 category = length (category_matches lib text0 category)"

definition matched_categories :: "pylib \<Rightarrow> string \<Rightarrow> string list" where
  "matched_categories lib text0 =
     filter (\<lambda>category. 1 \<le> hit_count lib text0 category) (map fst SCAM_PATTERNS)"

text \<open>Two stand-ins for the library, for running the model on concrete inputs: one in
  which no pattern matches anything, and one in which the first urgency pattern finds
  \<open>urgent\<close> and the first impersonation pattern finds \<open>official\<close> in the text
  \<open>urgent official\<close>, as \<^verbatim>\<open>re\<close> does, and nothing is found in any other text.\<close>

definition no_match_lib :: pylib where
  "no_match_lib =
     \<lparr> unicodedata_normalize = (\<lambda>form s. s), str_lower = (\<lambda>s. s), str_strip = (\<lambda>s. s),
       str_isupper = (\<lambda>c. False), str_isdigit = (\<lambda>c. False),
       re_sub = (\<lambda>pattern repl s. s), re_findall = (\<lambda>pattern ignorecase s. []) \<rparr>"

definition example_lib :: pylib where
  "example_lib =
     \<lparr> unicodedata_normalize = (\<lambda>form s. s), str_lower = (\<lambda>s. s), str_strip = (\<lambda>s. s),
       str_isupper = (\<lambda>c. False), str_isdigit = (\<lambda>c. False),
       re_sub = (\<lambda>pattern repl s. s),
       re_findall = (\<lambda>pattern ignorecase s.
         if s \<noteq> ''urgent official'' then []
         else if pattern =
           bs @ ''b(urgent|immediately|right now|asap|hurry|limited time)'' @ bs @ ''b''
         then [Match ''urgent'']
         else if pattern =
           bs @ ''b(official|government|embassy|authorized agent)'' @ bs @ ''b(?!.*verified)''
         then [Match ''official'']
         else []) \<rparr>"

section \<open>Scam language analysis: model\<close>

text \<open>\<^verbatim>\<open>tokenize\<close>: the pattern has no group, so \<^verbatim>\<open>findall\<close> returns strings.\<close>

definition tokenize :: "pylib \<Rightarrow> string \<Rightarrow> string list" where
  "tokenize lib text0 =
     map match_text
       (re_findall lib (bs @ ''b'' @ bs @ ''w+'' @ bs @ ''b'') False (str_lower lib text0))"

text \<open>\<^verbatim>\<open>extract_ngrams\<close>: \<^verbatim>\<open>range(len(tokens) - n + 1)\<close> is empty when the bound is
  not positive, and \<^verbatim>\<open>tokens[i:i + n]\<close> is \<open>take n (drop i tokens)\<close>.\<close>

definition extract_ngrams :: "string list \<Rightarrow> nat \<Rightarrow> string list" where
  "extract_ngrams toks n =
     map (\<lambda>i. str_join '' '' (take n (drop i toks))) [0 ..< length toks + 1 - n]"

text \<open>\<^verbatim>\<open>sub in s\<close> for strings.\<close>

fun startswith :: "string \<Rightarrow> string \<Rightarrow> bool" where
  "startswith s [] = True"
| "startswith [] (p # ps) = False"
| "startswith (c # s) (p # ps) = (c = p \<and> startswith s ps)"

fun str_contains :: "string \<Rightarrow> string \<Rightarrow> bool" where
  "str_contains [] sub = (sub = [])"
| "str_contains (c # s) sub = (startswith (c # s) sub \<or> str_contains s sub)"

text \<open>The dictionary \<^verbatim>\<open>preprocess_for_model\<close> returns; the entries
  \<^verbatim>\<open>has_<category>\<close> are the association list \<open>has_category\<close>.\<close>

record model_features =
  features_text :: string
  features_tokens :: "string list"
  features_bigrams :: "string list"
  features_trigrams :: "string list"
  token_count :: nat
  char_count :: nat
  exclamation_count :: nat
  question_count :: nat
  caps_ratio :: real
  numeric_ratio :: real
  has_url :: bool
  has_email :: bool
  has_phone :: bool
  has_category :: "(string \<times> bool) list"

definition preprocess_for_model :: "pylib \<Rightarrow> string \<Rightarrow> model_features" where
  "preprocess_for_model lib text0 =
     (let cleaned = clean_text lib text0;
          tokens = tokenize lib cleaned;
          bigrams = extract_ngrams tokens 2;
          trigrams = extract_ngrams tokens 3;
          pattern_matches = detect_patterns lib text0
      in \<lparr> features_text = cleaned,
           features_tokens = tokens,
           features_bigrams = bigrams,
           features_trigrams = trigrams,
           token_count = length tokens,
           char_count = length cleaned,
           exclamation_count = length (filter (\<lambda>c. c = CHR ''!'') text0),
           question_count = length (filter (\<lambda>c. c = CHR ''?'') text0),
           caps_ratio =
             int_truediv (int (length (filter (str_isupper lib) text0)))
               (max (int (length text0)) 1),
           numeric_ratio =
             int_truediv (int (length (filter (str_isdigit lib) text0)))
               (max (int (length text0)) 1),
           has_url = str_contains cleaned ''[URL]'',
           has_email = str_contains cleaned ''[EMAIL]'',
           has_phone = str_contains cleaned ''[PHONE]'',
           has_category =
             map (\<lambda>category. (''has_'' @ category, \<exists>m \<in> set pattern_matches. fst m = category))
               (map fst SCAM_PATTERNS) \<rparr>)"

text \<open>The dictionary \<^verbatim>\<open>get_risk_assessment\<close> returns.\<close>

record risk_assessment =
  assessment_score :: real
  risk_level :: string
  recommendation :: string
  details :: "scam_reason list"

definition get_risk_assessment :: "real \<Rightarrow> scam_reason list \<Rightarrow> risk_assessment" where
  "get_risk_assessment score reasons =
     (let (risk_level, recommendation) =
        (if score \<ge> b64 0.7 then
           (''high'',
            ''This message shows multiple scam indicators. Exercise extreme caution.'')
         else if score \<ge> b64 0.4 then
           (''medium'',
            ''This message has some suspicious elements. Verify claims independently.'')
         else if score \<ge> b64 0.2 then
           (''low'', ''Minor concerns detected. Proceed with normal verification.'')
         else
           (''minimal'', ''No significant scam indicators detected.''))
      in \<lparr> assessment_score = score, risk_level = risk_level,
           recommendation = recommendation, details = reasons \<rparr>)"

text \<open>\<^verbatim>\<open>ScamDetectionModel\<close>: the attributes of the object. Whether the model file
  exists is the file system's answer, the parameter \<open>path_exists\<close>.\<close>

record ScamDetectionModel =
  model_path :: "string option"
  model_loaded :: bool
  threshold :: real

definition load_model :: "ScamDetectionModel \<Rightarrow> ScamDetectionModel" where
  "load_model self = self\<lparr> model_loaded := True \<rparr>"

definition ScamDetectionModel_init :: "(string \<Rightarrow> bool) \<Rightarrow> string option \<Rightarrow> ScamDetectionModel" where
  "ScamDetectionModel_init path_exists path =
     (let self = \<lparr> model_path = path, model_loaded = False, threshold = 0.5 \<rparr> in
      case path of
        None \<Rightarrow> self
      | Some p \<Rightarrow> if p \<noteq> [] \<and> path_exists p then load_model self else self)"

text \<open>The entry \<^verbatim>\<open>"features"\<close> of a prediction.\<close>

record prediction_features =
  pf_token_count :: nat
  pf_has_url :: bool
  pf_caps_ratio :: real

text \<open>The dictionary \<^verbatim>\<open>predict\<close> returns. The combination
  \<^verbatim>\<open>rule_score * 0.6 + ml_score * 0.4\<close> is two float multiplications and one
  float addition.\<close>

record prediction =
  prediction_text :: string
  scam_probability :: real
  is_scam :: bool
  rule_score :: real
  ml_score :: real
  assessment :: risk_assessment
  features :: prediction_features

definition predict :: "pylib \<Rightarrow> ScamDetectionModel \<Rightarrow> string \<Rightarrow> prediction" where
  "predict lib self text0 =
     (let features = preprocess_for_model lib text0;
          (rule_score, rule_reasons) = calculate_scam_score lib text0;
          ml_score = (if model_loaded self then rule_score else rule_score);
          final_score = fadd (fmul rule_score (b64 0.6)) (fmul ml_score (b64 0.4));
          assessment = get_risk_assessment final_score rule_reasons
      in \<lparr> prediction_text =
             (if length text0 > 200 then take 200 text0 @ ''...'' else text0),
           scam_probability = final_score,
           is_scam = (final_score \<ge> threshold self),
           rule_score = rule_score,
           ml_score = ml_score,
           assessment = assessment,
           features =
             \<lparr> pf_token_count = token_count features,
               pf_has_url = has_url features,
               pf_caps_ratio = caps_ratio features \<rparr> \<rparr>)"

section \<open>Document verification: confidence scoring\<close>

text \<open>\<^verbatim>\<open>ConfidenceScorer\<close>: the attributes of the object, which
  \<^verbatim>\<open>__init__\<close> sets and \<^verbatim>\<open>adjust_thresholds\<close> assigns. The module holds one
  instance, \<^verbatim>\<open>confidence_scorer\<close>, for the whole process.\<close>

record ConfidenceScorer =
  auto_approve_threshold :: real
  auto_reject_threshold :: real
  review_required_min :: real

definition ConfidenceScorer_init :: ConfidenceScorer where
  "ConfidenceScorer_init =
     \<lparr> auto_approve_threshold = 0.95, auto_reject_threshold = 0.3, review_required_min = 0.6 \<rparr>"

text \<open>The argument dictionaries, read at the keys the scorer reads; \<open>None\<close> is a
  missing key. \<open>ocr_confidence\<close> and \<open>ocr_fields\<close> are the keys \<^verbatim>\<open>"confidence"\<close> and
  \<^verbatim>\<open>"fields"\<close> of the OCR result (a field value may be \<^verbatim>\<open>None\<close>);
  \<open>fr_confidence\<close> and \<open>fr_forgery_detected\<close> are \<^verbatim>\<open>"confidence"\<close> and
  \<^verbatim>\<open>"forgery_detected"\<close> of the forgery result; \<open>vr_is_valid\<close> is
  \<^verbatim>\<open>"is_valid"\<close> of the validation result. The cross reference is an optional
  dictionary of numbers.\<close>

record OcrResult =
  ocr_confidence :: "real option"
  ocr_fields :: "(string \<times> string option) list option"

record ForgeryResult =
  fr_confidence :: "real option"
  fr_forgery_detected :: "bool option"

record ValidationResult =
  vr_is_valid :: "bool option"

text \<open>\<^verbatim>\<open>_score_ocr_quality\<close>.\<close>

definition score_ocr_quality :: "OcrResult \<Rightarrow> real" where
  "score_ocr_quality ocr_result =
     (let base_confidence = (case ocr_confidence ocr_result of None \<Rightarrow> 0 | Some c \<Rightarrow> c);
          fields = (case ocr_fields ocr_result of None \<Rightarrow> [] | Some f \<Rightarrow> f);
          filled_fields = length (filter (\<lambda>v. v \<noteq> None) (map snd fields));
          total_fields = (if fields \<noteq> [] then length fields else 1);
          field_ratio = int_truediv (int filled_fields) (int total_fields)
      in fadd (fmul base_confidence (b64 0.6)) (fmul field_ratio (b64 0.4)))"

text \<open>\<^verbatim>\<open>_make_decision\<close>. \<^verbatim>\<open>forgery_result.get("forgery_detected")\<close> is truthy
  when the entry is \<^verbatim>\<open>True\<close>.\<close>

definition make_decision :: "ConfidenceScorer \<Rightarrow> real \<Rightarrow> ForgeryResult \<Rightarrow> string" where
  "make_decision self score forgery_result =
     (if fr_forgery_detected forgery_result = Some True then ''reject''
      else if score \<ge> auto_approve_threshold self then ''approve''
      else if score < auto_reject_threshold self then ''reject''
      else ''review'')"

text \<open>The dictionary \<^verbatim>\<open>calculate_score\<close> returns; \<open>timestamp\<close> is the clock reading
  whose \<^verbatim>\<open>isoformat()\<close> the source stores.\<close>

record score_result =
  overall_score :: real
  component_scores :: "(string \<times> real) list"
  decision :: string
  requires_manual_review :: bool
  auto_approved :: bool
  auto_rejected :: bool
  timestamp :: datetime

text \<open>The local dictionary \<^verbatim>\<open>weights\<close> of \<^verbatim>\<open>calculate_score\<close>.\<close>

definition score_weights :: "(string \<times> real) list" where
  "score_weights =
     [(''ocr_quality'', b64 0.2),
      (''authenticity'', b64 0.4),
      (''validation'', 0.25),
      (''cross_reference'', b64 0.15)]"

text \<open>\<^verbatim>\<open>calculate_score\<close>, with the clock as the argument \<open>now\<close>. It reads the
  thresholds of \<open>self\<close> (in \<^const>\<open>make_decision\<close>) and assigns no attribute. \<open>None\<close> is a
  \<^verbatim>\<open>KeyError\<close> of \<^verbatim>\<open>weights[k]\<close>. An empty cross-reference dictionary is falsy.
  The two sums run over \<^verbatim>\<open>scores.keys()\<close>, in insertion order. A threshold attribute
  is embedded as the decimal of the literal assigned to it, and the score is compared
  with that decimal; the code compares with the binary64 number nearest to it, which
  decides differently only for a score equal to that binary64 number.\<close>

definition calculate_score ::
  "ConfidenceScorer \<Rightarrow> datetime \<Rightarrow> OcrResult \<Rightarrow> ForgeryResult \<Rightarrow> ValidationResult
     \<Rightarrow> (string \<times> real) list option \<Rightarrow> score_result option" where
  "calculate_score self now ocr_result forgery_result validation_result cross_reference =
     (let scores = setitem [] ''ocr_quality'' (score_ocr_quality ocr_result);
          forgery_confidence =
            (case fr_confidence forgery_result of None \<Rightarrow> 0 | Some c \<Rightarrow> c);
          scores = setitem scores ''authenticity'' (fsub 1.0 forgery_confidence);
          scores = setitem scores ''validation''
            (if vr_is_valid validation_result = Some True then 1.0 else 0.5);
          scores =
            (case cross_reference of
               None \<Rightarrow> scores
             | Some [] \<Rightarrow> scores
             | Some (e # es) \<Rightarrow>
                 setitem scores ''cross_reference'' (get_default (e # es) ''match_score'' 0.5))
      in do {
        ws \<leftarrow> those (map (\<lambda>k. getitem score_weights k) (map fst scores));
        let total_weight = float_sum ws;
        let weighted_sum = float_sum (map (\<lambda>((k, s), w). fmul s w) (zip scores ws));
        let overall_score = (if total_weight > 0 then fdiv weighted_sum total_weight else 0);
        let decision = make_decision self overall_score forgery_result;
        Some \<lparr> overall_score = overall_score,
               component_scores = scores,
               decision = decision,
               requires_manual_review = (decision = ''review''),
               auto_approved = (decision = ''approve''),
               auto_rejected = (decision = ''reject''),
               timestamp = now \<rparr>
      })"

text \<open>\<^verbatim>\<open>adjust_thresholds\<close> assigns two attributes of the scorer; the model returns
  the scorer after the call.\<close>

definition adjust_thresholds :: "string \<Rightarrow> ConfidenceScorer \<Rightarrow> ConfidenceScorer" where
  "adjust_thresholds document_type self =
     (let high_risk_types = [''passport'', ''cnic'', ''bank_statement''];
          medium_risk_types = [''degree'', ''experience_letter'']
      in if document_type \<in> set high_risk_types then
           self\<lparr> auto_approve_threshold := 0.98, auto_reject_threshold := 0.4 \<rparr>
         else if document_type \<in> set medium_risk_types then
           self\<lparr> auto_approve_threshold := 0.92, auto_reject_threshold := 0.35 \<rparr>
         else
           self\<lparr> auto_approve_threshold := 0.90, auto_reject_threshold := 0.3 \<rparr>)"

text \<open>The scorers the code can build: a fresh one, and one after any number of calls of
  \<^verbatim>\<open>adjust_thresholds\<close>.\<close>

inductive reachable :: "ConfidenceScorer \<Rightarrow> bool" where
  reachable_init: "reachable ConfidenceScorer_init"
| reachable_adjust: "reachable self \<Longrightarrow> reachable (adjust_thresholds document_type self)"

text \<open>The pair (auto-approve threshold, auto-reject threshold) of a scorer.\<close>

definition thresholds :: "ConfidenceScorer \<Rightarrow> real \<times> real" where
  "thresholds self = (auto_approve_threshold self, auto_reject_threshold self)"


definition example_forgery :: ForgeryResult where
  "example_forgery = \<lparr> fr_confidence = Some 0.1, fr_forgery_detected = Some False \<rparr>"






section \<open>The scoring core in a process\<close>









section \<open>Properties of binary64 rounding\<close>

lemma round_half_even_err: "\<bar>of_int (round_half_even y) - y\<bar> \<le> 1 / 2"
  unfolding round_half_even_def Let_def by (auto; linarith)

lemma round_half_even_eq:
  assumes "\<bar>y - of_int m\<bar> < 1 / 2"
  shows "round_half_even y = m"
proof (cases "of_int m \<le> y")
  case True
  with assms have "\<lfloor>y\<rfloor> = m"
    by (intro floor_unique) auto
  with assms True show ?thesis
    by (simp add: round_half_even_def)
next
  case False
  with assms have f: "\<lfloor>y\<rfloor> = m - 1"
    by (intro floor_unique) auto
  with assms False show ?thesis
    by (simp add: round_half_even_def)
qed

lemma round_half_even_nonneg: "0 \<le> y \<Longrightarrow> 0 \<le> round_half_even y"
  unfolding round_half_even_def Let_def by auto

lemma round_half_even_0: "round_half_even 0 = 0"
  by (simp add: round_half_even_def)

lemma exp_down_le: "exp_down n a e \<le> e"
  by (induction n a e rule: exp_down.induct) auto

lemma exp_down_normal:
  "2 powi (e - int n + 52) \<le> a \<Longrightarrow> 2 powi (exp_down n a e + 52) \<le> a"
proof (induction n a e rule: exp_down.induct)
  case (1 a e)
  then show ?case by simp
next
  case (2 n a e)
  then show ?case
    by (auto simp add: algebra_simps)
qed

lemma exp_up_normal:
  "2 powi (e + 52) \<le> a \<Longrightarrow> 2 powi (exp_up n a e + 52) \<le> a"
proof (induction n a e rule: exp_up.induct)
  case (1 a e)
  then show ?case by simp
next
  case (2 n a e)
  then show ?case
    by (auto simp add: algebra_simps)
qed

lemma b64_exponent_small: "a < 2 \<Longrightarrow> b64_exponent a \<le> - 52"
proof (cases "a < 1")
  case True
  then show ?thesis
    using exp_down_le [of 1022 a "- 52"] by (simp add: b64_exponent_def)
next
  case False
  assume "a < 2"
  then have "exp_up 1023 a (- 52) = - 52"
    by (simp add: eval_nat_numeral)
  with False show ?thesis
    by (simp add: b64_exponent_def)
qed

lemma b64_exponent_normal:
  assumes "2 powi (- 1022) \<le> a"
  shows "2 powi (b64_exponent a + 52) \<le> a"
proof (cases "a < 1")
  case True
  have "2 powi (- 52 - int 1022 + 52) \<le> a"
    using assms by simp
  then have "2 powi (exp_down 1022 a (- 52) + 52) \<le> a"
    by (rule exp_down_normal)
  with True show ?thesis
    by (simp add: b64_exponent_def)
next
  case False
  then have "2 powi (- 52 + 52) \<le> a"
    by simp
  then have "2 powi (exp_up 1023 a (- 52) + 52) \<le> a"
    by (rule exp_up_normal)
  with False show ?thesis
    by (simp add: b64_exponent_def)
qed

lemma b64_err: "\<bar>b64 x - x\<bar> \<le> 2 powi (b64_exponent \<bar>x\<bar>) / 2"
proof -
  define e where "e = b64_exponent \<bar>x\<bar>"
  define p :: real where "p = 2 powi e"
  have p: "0 < p"
    by (simp add: p_def)
  have "b64 x - x = (of_int (round_half_even (x / p)) - x / p) * p"
    using p by (simp add: b64_def e_def p_def Let_def algebra_simps)
  then have "\<bar>b64 x - x\<bar> = \<bar>of_int (round_half_even (x / p)) - x / p\<bar> * p"
    using p by (simp add: abs_mult)
  also have "\<dots> \<le> (1 / 2) * p"
    using p round_half_even_err [of "x / p"] by (intro mult_right_mono) auto
  finally show ?thesis
    by (simp add: p_def e_def)
qed

lemma b64_abs_err:
  assumes "\<bar>x\<bar> < 2"
  shows "\<bar>b64 x - x\<bar> \<le> 2 powi (- 53)"
proof -
  have "b64_exponent \<bar>x\<bar> \<le> - 52"
    using assms by (rule b64_exponent_small)
  then have "(2::real) powi (b64_exponent \<bar>x\<bar>) \<le> 2 powi (- 52)"
    by (intro power_int_increasing) auto
  then have "(2::real) powi (b64_exponent \<bar>x\<bar>) / 2 \<le> 2 powi (- 53)"
    by (simp add: power_int_minus)
  with b64_err [of x] show ?thesis
    by linarith
qed

lemma b64_rel_err:
  assumes "2 powi (- 1022) \<le> \<bar>x\<bar>"
  shows "\<bar>b64 x - x\<bar> \<le> \<bar>x\<bar> * 2 powi (- 53)"
proof -
  define e where "e = b64_exponent \<bar>x\<bar>"
  have "2 powi (e + 52) \<le> \<bar>x\<bar>"
    unfolding e_def using assms by (rule b64_exponent_normal)
  then have "(2::real) powi (e + 52) * 2 powi (- 53) \<le> \<bar>x\<bar> * 2 powi (- 53)"
    by (intro mult_right_mono) auto
  moreover have "(2::real) powi (e + 52) * 2 powi (- 53) = 2 powi e / 2"
    by (simp add: power_int_add power_int_minus field_simps)
  ultimately show ?thesis
    using b64_err [of x] by (simp add: e_def)
qed

lemma b64_nonneg: "0 \<le> x \<Longrightarrow> 0 \<le> b64 x"
  by (simp add: b64_def Let_def round_half_even_nonneg)

lemma b64_0: "b64 0 = 0"
  by (simp add: b64_def round_half_even_0)

lemma powi_le_imp_le:
  fixes i j :: int
  assumes "(2::real) powi i \<le> a" "a < 2 powi j"
  shows "i < j"
proof (rule ccontr)
  assume "\<not> i < j"
  then have "(2::real) powi j \<le> 2 powi i"
    by (intro power_int_increasing) auto
  with assms show False
    by linarith
qed

lemma exp_down_eq:
  "a < 2 powi (e + 53) \<Longrightarrow> 2 powi (e' + 52) \<le> a \<Longrightarrow> a < 2 powi (e' + 53) \<Longrightarrow>
   e' \<le> e \<Longrightarrow> e - int n \<le> e' \<Longrightarrow> exp_down n a e = e'"
proof (induction n a e rule: exp_down.induct)
  case (1 a e)
  then show ?case by simp
next
  case (2 n a e)
  show ?case
  proof (cases "2 powi (e + 52) \<le> a")
    case True
    from True "2.prems"(3) have "e + 52 < e' + 53"
      by (rule powi_le_imp_le)
    with "2.prems"(4) True show ?thesis
      by simp
  next
    case False
    with "2.prems"(2) have "e' \<noteq> e"
      by auto
    with "2.prems"(4) have le: "e' \<le> e - 1"
      by simp
    from False have "a < 2 powi (e - 1 + 53)"
      by (simp add: algebra_simps)
    from "2.IH" [OF False this "2.prems"(2) "2.prems"(3) le] "2.prems"(5) False
    show ?thesis
      by simp
  qed
qed

lemma exp_up_eq:
  "2 powi (e + 52) \<le> a \<Longrightarrow> 2 powi (e' + 52) \<le> a \<Longrightarrow> a < 2 powi (e' + 53) \<Longrightarrow>
   e \<le> e' \<Longrightarrow> e' \<le> e + int n \<Longrightarrow> exp_up n a e = e'"
proof (induction n a e rule: exp_up.induct)
  case (1 a e)
  then show ?case by simp
next
  case (2 n a e)
  show ?case
  proof (cases "a < 2 powi (e + 53)")
    case True
    from "2.prems"(2) True have "e' + 52 < e + 53"
      by (rule powi_le_imp_le)
    with "2.prems"(4) True show ?thesis
      by simp
  next
    case False
    with "2.prems"(3) have "e' \<noteq> e"
      by auto
    with "2.prems"(4) have le: "e + 1 \<le> e'"
      by simp
    from False have "2 powi (e + 1 + 52) \<le> a"
      by (simp add: algebra_simps)
    from "2.IH" [OF False this "2.prems"(2) "2.prems"(3) le] "2.prems"(5) False
    show ?thesis
      by simp
  qed
qed

lemma b64_exponent_eq:
  assumes "2 powi (e + 52) \<le> a" "a < 2 powi (e + 53)" "- 1074 \<le> e" "e \<le> 971"
  shows "b64_exponent a = e"
proof (cases "a < 1")
  case True
  then have "a < 2 powi (- 52 + 53)"
    by simp
  moreover have "e \<le> - 52"
  proof -
    from True have "a < 2 powi 0"
      by simp
    with assms(1) have "e + 52 < 0"
      by (rule powi_le_imp_le)
    then show ?thesis by simp
  qed
  ultimately have "exp_down 1022 a (- 52) = e"
    using assms by (intro exp_down_eq) auto
  with True show ?thesis
    by (simp add: b64_exponent_def)
next
  case False
  then have "2 powi (- 52 + 52) \<le> a"
    by simp
  moreover have "- 52 \<le> e"
  proof -
    from False have "2 powi 0 \<le> a"
      by simp
    from this assms(2) have "0 < e + 53"
      by (rule powi_le_imp_le)
    then show ?thesis by simp
  qed
  ultimately have "exp_up 1023 a (- 52) = e"
    using assms by (intro exp_up_eq) auto
  with False show ?thesis
    by (simp add: b64_exponent_def)
qed

lemma b64_eq:
  assumes "2 powi (e + 52) \<le> \<bar>x\<bar>" "\<bar>x\<bar> < 2 powi (e + 53)" "- 1074 \<le> e" "e \<le> 971"
    and "\<bar>x / 2 powi e - of_int m\<bar> < 1 / 2"
  shows "b64 x = of_int m * 2 powi e"
  using b64_exponent_eq [OF assms(1-4)] round_half_even_eq [OF assms(5)]
  by (simp add: b64_def)

text \<open>Evaluation at a value below 1: \<open>x * 2 ^ k\<close> lies in [2^52, 2^53) and rounds to \<open>m\<close>.\<close>

lemma b64_eq_div:
  assumes "2 ^ 52 \<le> \<bar>x\<bar> * 2 ^ k" "\<bar>x\<bar> * 2 ^ k < 2 ^ 53" "k \<le> 1074"
    and "\<bar>x * 2 ^ k - of_int m\<bar> < 1 / 2"
  shows "b64 x = of_int m / 2 ^ k"
proof -
  have p: "(2::real) powi (- int k) = 1 / 2 ^ k"
    by (simp add: power_int_minus field_simps)
  have p52: "(2::real) powi (- int k + 52) = 2 ^ 52 / 2 ^ k"
    using power_int_add [of "2::real" "- int k" 52] by (simp add: p)
  have p53: "(2::real) powi (- int k + 53) = 2 ^ 53 / 2 ^ k"
    using power_int_add [of "2::real" "- int k" 53] by (simp add: p)
  have a: "2 powi (- int k + 52) \<le> \<bar>x\<bar>"
    unfolding p52 using assms(1) by (simp add: field_simps)
  have b: "\<bar>x\<bar> < 2 powi (- int k + 53)"
    unfolding p53 using assms(2) by (simp add: field_simps)
  have c: "\<bar>x / 2 powi (- int k) - of_int m\<bar> < 1 / 2"
    using assms(4) by (simp add: p)
  have "b64 x = of_int m * 2 powi (- int k)"
    using a b _ _ c by (rule b64_eq) (use assms(3) in auto)
  then show ?thesis
    by (simp add: p)
qed

text \<open>Evaluation at a tie: \<open>x * 2 ^ k\<close> lies halfway between \<open>f\<close> and \<open>f + 1\<close> and
  goes to the even one.\<close>

lemma round_half_even_tie:
  assumes "y = of_int f + 1 / 2"
  shows "round_half_even y = (if even f then f else f + 1)"
proof -
  from assms have "\<lfloor>y\<rfloor> = f"
    by (intro floor_unique) auto
  with assms show ?thesis
    by (simp add: round_half_even_def)
qed

lemma b64_tie_div:
  assumes "2 ^ 52 \<le> \<bar>x\<bar> * 2 ^ k" "\<bar>x\<bar> * 2 ^ k < 2 ^ 53" "k \<le> 1074"
    and "x * 2 ^ k = of_int f + 1 / 2"
  shows "b64 x = of_int (if even f then f else f + 1) / 2 ^ k"
proof -
  have p: "(2::real) powi (- int k) = 1 / 2 ^ k"
    by (simp add: power_int_minus field_simps)
  have p52: "(2::real) powi (- int k + 52) = 2 ^ 52 / 2 ^ k"
    using power_int_add [of "2::real" "- int k" 52] by (simp add: p)
  have p53: "(2::real) powi (- int k + 53) = 2 ^ 53 / 2 ^ k"
    using power_int_add [of "2::real" "- int k" 53] by (simp add: p)
  have a: "2 powi (- int k + 52) \<le> \<bar>x\<bar>"
    unfolding p52 using assms(1) by (simp add: field_simps)
  have b: "\<bar>x\<bar> < 2 powi (- int k + 53)"
    unfolding p53 using assms(2) by (simp add: field_simps)
  have e: "b64_exponent \<bar>x\<bar> = - int k"
    using a b by (rule b64_exponent_eq) (use assms(3) in auto)
  have "x / 2 powi (- int k) = of_int f + 1 / 2"
    using assms(4) by (simp add: p)
  then have "round_half_even (x / 2 powi (- int k)) = (if even f then f else f + 1)"
    by (rule round_half_even_tie)
  then have "b64 x = of_int (if even f then f else f + 1) * 2 powi (- int k)"
    by (simp add: b64_def e)
  then show ?thesis
    by (simp add: p)
qed

text \<open>The values of \<open>b64\<close> that the examples below need, each checked by
  \<open>b64_eq_div\<close> or \<open>b64_tie_div\<close>.\<close>

lemma b64_value_1: "b64 1 = 1"
  using b64_eq_div [where m = "2 ^ 52" and k = 52 and x = 1] by simp

lemma b64_value_2: "b64 (1 / 10) = 3602879701896397 / 36028797018963968"
  using b64_eq_div [where m = 7205759403792794 and k = 56 and x = "1 / 10"] by simp

lemma b64_value_3: "b64 (3 / 10) = 5404319552844595 / 18014398509481984"
  using b64_eq_div [where m = 5404319552844595 and k = 54 and x = "3 / 10"] by simp

lemma b64_value_4: "b64 (6 / 5) = 5404319552844595 / 4503599627370496"
  using b64_eq_div [where m = 5404319552844595 and k = 52 and x = "6 / 5"] by simp

lemma b64_value_5: "b64 (3602879701896397 / 36028797018963968) = 3602879701896397 / 36028797018963968"
  using b64_eq_div [where m = 7205759403792794 and k = 56 and x = "3602879701896397 / 36028797018963968"] by simp

lemma b64_value_6: "b64 (5404319552844595 / 4503599627370496) = 5404319552844595 / 4503599627370496"
  using b64_eq_div [where m = 5404319552844595 and k = 52 and x = "5404319552844595 / 4503599627370496"] by simp

lemma b64_value_7: "b64 (19471113219505603967277331424215 / 162259276829213363391578010288128) = 1080863910568919 / 9007199254740992"
  using b64_eq_div [where m = 8646911284551352 and k = 56 and x = "19471113219505603967277331424215 / 162259276829213363391578010288128"] by simp

lemma b64_value_8: "b64 (7926335344172073 / 36028797018963968) = 7926335344172073 / 36028797018963968"
  using b64_eq_div [where m = 7926335344172073 and k = 55 and x = "7926335344172073 / 36028797018963968"] by simp

lemma b64_value_9: "b64 (3 / 5) = 5404319552844595 / 9007199254740992"
  using b64_eq_div [where m = 5404319552844595 and k = 53 and x = "3 / 5"] by simp

lemma b64_value_10: "b64 (2 / 5) = 3602879701896397 / 9007199254740992"
  using b64_eq_div [where m = 7205759403792794 and k = 54 and x = "2 / 5"] by simp

lemma b64_value_11: "b64 (42836449082912326566282307995435 / 324518553658426726783156020576256) = 1188950301625811 / 9007199254740992"
  using b64_eq_div [where m = 4755801206503244 and k = 55 and x = "42836449082912326566282307995435 / 324518553658426726783156020576256"] by simp

lemma b64_value_12: "b64 (28557632721941553686299986720981 / 324518553658426726783156020576256) = 6341068275337659 / 72057594037927936"
  using b64_eq_div [where m = 6341068275337659 and k = 56 and x = "28557632721941553686299986720981 / 324518553658426726783156020576256"] by simp

lemma b64_value_13: "b64 (15852670688344147 / 72057594037927936) = 3963167672086037 / 18014398509481984"
  using b64_tie_div [where f = 7926335344172073 and k = 55 and x = "15852670688344147 / 72057594037927936"] by simp

lemma b64_value_14: "b64 (3602879701896397 / 18014398509481984) = 3602879701896397 / 18014398509481984"
  using b64_eq_div [where m = 7205759403792794 and k = 55 and x = "3602879701896397 / 18014398509481984"] by simp

lemma b64_value_15: "b64 (10808639105689191 / 36028797018963968) = 1351079888211149 / 4503599627370496"
  using b64_tie_div [where f = 5404319552844595 and k = 54 and x = "10808639105689191 / 36028797018963968"] by simp

lemma b64_value_16: "b64 (14411518807585589 / 36028797018963968) = 3602879701896397 / 9007199254740992"
  using b64_tie_div [where f = 7205759403792794 and k = 54 and x = "14411518807585589 / 36028797018963968"] by simp

lemma b64_value_17: "b64 (18014398509481985 / 36028797018963968) = 1 / 2"
  using b64_eq_div [where m = 4503599627370496 and k = 53 and x = "18014398509481985 / 36028797018963968"] by simp

lemma b64_value_18: "b64 (21617278211378381 / 36028797018963968) = 5404319552844595 / 9007199254740992"
  using b64_eq_div [where m = 5404319552844595 and k = 53 and x = "21617278211378381 / 36028797018963968"] by simp

lemma b64_value_19: "b64 (25220157913274777 / 36028797018963968) = 3152519739159347 / 4503599627370496"
  using b64_eq_div [where m = 6305039478318694 and k = 53 and x = "25220157913274777 / 36028797018963968"] by simp

lemma b64_value_20: "b64 (28823037615171173 / 36028797018963968) = 7205759403792793 / 9007199254740992"
  using b64_eq_div [where m = 7205759403792793 and k = 53 and x = "28823037615171173 / 36028797018963968"] by simp

lemma b64_value_21: "b64 (32425917317067569 / 36028797018963968) = 2026619832316723 / 2251799813685248"
  using b64_eq_div [where m = 8106479329266892 and k = 53 and x = "32425917317067569 / 36028797018963968"] by simp

lemma b64_value_22: "b64 (36028797018963965 / 36028797018963968) = 9007199254740991 / 9007199254740992"
  using b64_eq_div [where m = 9007199254740991 and k = 53 and x = "36028797018963965 / 36028797018963968"] by simp

lemma b64_value_23: "b64 (450359962737049625 / 9007199254740992) = 50"
  using b64_eq_div [where m = 7036874417766400 and k = 47 and x = "450359962737049625 / 9007199254740992"] by simp

lemma b64_value_24: "b64 (50) = 50"
  using b64_eq_div [where m = 7036874417766400 and k = 47 and x = "50"] by simp

lemma b64_value_25: "b64 (100) = 100"
  using b64_eq_div [where m = 7036874417766400 and k = 46 and x = "100"] by simp

lemma b64_value_26: "b64 (150) = 150"
  using b64_eq_div [where m = 5277655813324800 and k = 45 and x = "150"] by simp

lemma b64_value_27: "b64 (200) = 200"
  using b64_eq_div [where m = 7036874417766400 and k = 45 and x = "200"] by simp

lemma b64_value_28: "b64 (250) = 250"
  using b64_eq_div [where m = 8796093022208000 and k = 45 and x = "250"] by simp

lemma b64_value_29: "b64 (300) = 300"
  using b64_eq_div [where m = 5277655813324800 and k = 44 and x = "300"] by simp

lemma b64_value_30: "b64 (350) = 350"
  using b64_eq_div [where m = 6157265115545600 and k = 44 and x = "350"] by simp

lemma b64_value_31: "b64 (400) = 400"
  using b64_eq_div [where m = 7036874417766400 and k = 44 and x = "400"] by simp

lemma b64_value_32: "b64 (450) = 450"
  using b64_eq_div [where m = 7916483719987200 and k = 44 and x = "450"] by simp

lemma b64_value_33: "b64 (500) = 500"
  using b64_eq_div [where m = 8796093022208000 and k = 44 and x = "500"] by simp

lemma b64_value_34: "b64 (550) = 550"
  using b64_eq_div [where m = 4837851162214400 and k = 43 and x = "550"] by simp

lemma b64_value_35: "b64 (5404319552844595 / 9007199254740992) = 5404319552844595 / 9007199254740992"
  using b64_eq_div [where m = 5404319552844595 and k = 53 and x = "5404319552844595 / 9007199254740992"] by simp

lemma b64_value_36: "b64 (3602879701896397 / 9007199254740992) = 3602879701896397 / 9007199254740992"
  using b64_eq_div [where m = 7205759403792794 and k = 54 and x = "3602879701896397 / 9007199254740992"] by simp

lemma b64_value_37: "b64 (7 / 8) = 7 / 8"
  using b64_eq_div [where m = 7881299347898368 and k = 53 and x = "7 / 8"] by simp

lemma b64_value_38: "b64 (1 / 5) = 3602879701896397 / 18014398509481984"
  using b64_eq_div [where m = 7205759403792794 and k = 55 and x = "1 / 5"] by simp

lemma b64_value_39: "b64 (10808639105689191 / 18014398509481984) = 1351079888211149 / 2251799813685248"
  using b64_tie_div [where f = 5404319552844595 and k = 53 and x = "10808639105689191 / 18014398509481984"] by simp

lemma b64_value_40: "b64 (1914029841632461 / 2251799813685248) = 1914029841632461 / 2251799813685248"
  using b64_eq_div [where m = 7656119366529844 and k = 53 and x = "1914029841632461 / 2251799813685248"] by simp

lemma b64_value_41: "b64 (25220157913274779 / 72057594037927936) = 6305039478318695 / 18014398509481984"
  using b64_eq_div [where m = 6305039478318695 and k = 54 and x = "25220157913274779 / 72057594037927936"] by simp

lemma b64_value_42: "b64 (2476979795053773 / 4503599627370496) = 2476979795053773 / 4503599627370496"
  using b64_eq_div [where m = 4953959590107546 and k = 53 and x = "2476979795053773 / 4503599627370496"] by simp

lemma b64_value_43: "b64 (1 / 4) = 1 / 4"
  using b64_eq_div [where m = 4503599627370496 and k = 54 and x = "1 / 4"] by simp

lemma b64_value_44: "b64 (3602879701896397 / 4503599627370496) = 3602879701896397 / 4503599627370496"
  using b64_eq_div [where m = 7205759403792794 and k = 53 and x = "3602879701896397 / 4503599627370496"] by simp

lemma b64_value_45: "b64 (3602879701896397 / 3828059683264922) = 4238682002231055 / 4503599627370496"
  using b64_eq_div [where m = 8477364004462110 and k = 53 and x = "3602879701896397 / 3828059683264922"] by simp

lemmas b64_values =
  b64_value_1 b64_value_2 b64_value_3 b64_value_4 b64_value_5 b64_value_6 b64_value_7
  b64_value_8 b64_value_9 b64_value_10 b64_value_11 b64_value_12 b64_value_13 b64_value_14
  b64_value_15 b64_value_16 b64_value_17 b64_value_18 b64_value_19 b64_value_20 b64_value_21
  b64_value_22 b64_value_23 b64_value_24 b64_value_25 b64_value_26 b64_value_27 b64_value_28
  b64_value_29 b64_value_30 b64_value_31 b64_value_32 b64_value_33 b64_value_34 b64_value_35
  b64_value_36 b64_value_37 b64_value_38 b64_value_39 b64_value_40 b64_value_41 b64_value_42
  b64_value_43 b64_value_44 b64_value_45

section \<open>Properties of the score calculator\<close>






lemma get_trust_level_steps:
  "get_trust_level s =
     (if s \<ge> 800 then PLATINUM else if s \<ge> 600 then GOLD else if s \<ge> 400 then SILVER
      else if s \<ge> 200 then BRONZE else UNVERIFIED)"
  by (simp add: get_trust_level_def TrustLevel_members_def)

text \<open>
  C3. \<^const>\<open>get_trust_level\<close> is a non-decreasing step function of the score with the
  thresholds 0/200/400/600/800 for unverified/bronze/silver/gold/platinum: for all scores
  s1 \<le> s2 the level of s1 is at most the level of s2 in the order unverified < bronze <
  silver < gold < platinum; \<open>get_trust_level 400\<close> is silver and \<open>get_trust_level 399\<close>
  is bronze.
\<close>

theorem C3_get_trust_level:
  "(s1 \<le> s2 \<longrightarrow> level_rank (get_trust_level s1) \<le> level_rank (get_trust_level s2))
   \<and> (get_trust_level s = PLATINUM \<longleftrightarrow> 800 \<le> s)
   \<and> (get_trust_level s = GOLD \<longleftrightarrow> 600 \<le> s \<and> s < 800)
   \<and> (get_trust_level s = SILVER \<longleftrightarrow> 400 \<le> s \<and> s < 600)
   \<and> (get_trust_level s = BRONZE \<longleftrightarrow> 200 \<le> s \<and> s < 400)
   \<and> (get_trust_level s = UNVERIFIED \<longleftrightarrow> s < 200)
   \<and> get_trust_level 400 = SILVER
   \<and> get_trust_level 399 = BRONZE"
  by (simp add: get_trust_level_steps)

theorem C3_get_trust_level_witness:
  "level_rank (get_trust_level 399) \<le> level_rank (get_trust_level 400)
   \<and> get_trust_level 400 = SILVER \<and> get_trust_level 399 = BRONZE"
  using C3_get_trust_level [of 399 400 0]
  by simp

section \<open>Properties of the decay logic\<close>






section \<open>Properties of the document expiry decay\<close>

lemma expiry_loop_eq:
  "expiry_loop config fromisoformat now current_score documents total_decay expired_docs =
     (case first_error fromisoformat documents of
        Some e \<Rightarrow> Inl e
      | None \<Rightarrow>
          Inr (foldl fadd total_decay
                 (replicate (expired_count fromisoformat now documents)
                    (fmul current_score (b64 (DOC_EXPIRY_DECAY config)))),
               expired_docs @
               map (\<lambda>doc. \<lparr> expired_document_type = doc_type doc,
                      expired_at = stated_instant fromisoformat doc,
                      decay_applied = fmul current_score (b64 (DOC_EXPIRY_DECAY config)) \<rparr>)
                 (expired_documents fromisoformat now documents)))"
proof (induction documents arbitrary: total_decay expired_docs)
  case Nil
  then show ?case
    by (simp add: expired_count_def expired_documents_def)
next
  case (Cons doc documents)
  show ?case
  proof (cases "expiry_date doc")
    case None
    then show ?thesis
      by (simp add: Cons.IH expired_count_def expired_documents_def is_expired_def
          is_malformed_def is_incomparable_def split: option.split)
  next
    case (Some v)
    show ?thesis
    proof (cases v)
      case (ExpiryDatetime pd)
      with Some show ?thesis
        by (cases pd)
           (simp_all add: Cons.IH expired_count_def expired_documents_def is_expired_def
              is_malformed_def is_incomparable_def stated_instant_def Let_def
              split: option.split)
    next
      case (ExpiryString s)
      show ?thesis
      proof (cases "s = []")
        case True
        with Some ExpiryString show ?thesis
          by (simp add: Cons.IH expired_count_def expired_documents_def is_expired_def
              is_malformed_def is_incomparable_def split: option.split)
      next
        case False
        show ?thesis
        proof (cases "fromisoformat s")
          case None
          with Some ExpiryString False show ?thesis
            by (simp add: is_malformed_def)
        next
          case (Some pd)
          with \<open>expiry_date doc = Some v\<close> ExpiryString False show ?thesis
            by (cases pd)
               (simp_all add: Cons.IH expired_count_def expired_documents_def is_expired_def
                  is_malformed_def is_incomparable_def stated_instant_def Let_def
              split: option.split)
        qed
      qed
    qed
  qed
qed

lemma calculate_document_expiry_decay_eq:
  "calculate_document_expiry_decay config fromisoformat now documents current_score =
     (case first_error fromisoformat documents of
        Some e \<Rightarrow> Inl e
      | None \<Rightarrow>
          Inr (repeated_decay (expired_count fromisoformat now documents)
                 (fmul current_score (b64 (DOC_EXPIRY_DECAY config))),
               map (\<lambda>doc. \<lparr> expired_document_type = doc_type doc,
                      expired_at = stated_instant fromisoformat doc,
                      decay_applied = fmul current_score (b64 (DOC_EXPIRY_DECAY config)) \<rparr>)
                 (expired_documents fromisoformat now documents)))"
  by (simp add: calculate_document_expiry_decay_def expiry_loop_eq repeated_decay_def float_sum_def
      split: option.split)

lemma repeated_decay_0: "repeated_decay 0 d = 0"
  by (simp add: repeated_decay_def float_sum_def)

lemma repeated_decay_Suc: "repeated_decay (Suc n) d = fadd (repeated_decay n d) d"
proof -
  have "replicate (Suc n) d = replicate n d @ [d]"
    by (simp add: replicate_append_same)
  then show ?thesis
    by (simp only: repeated_decay_def float_sum_def foldl_append foldl.simps)
qed

lemma b64_rel_bounds:
  assumes "2 powi (- 1022) \<le> y"
  shows "y * (1 - 2 powi (- 53)) \<le> b64 y" "b64 y \<le> y * (1 + 2 powi (- 53))"
proof -
  from assms have y: "0 \<le> y"
    by (rule order_trans [rotated]) simp
  define u :: real where "u = 2 powi (- 53)"
  from assms y have "\<bar>b64 y - y\<bar> \<le> \<bar>y\<bar> * u"
    unfolding u_def by (intro b64_rel_err) simp
  with y have e: "\<bar>b64 y - y\<bar> \<le> y * u"
    by simp
  define t where "t = y * u"
  from e have "b64 y - y \<le> t" "- (b64 y - y) \<le> t"
    unfolding t_def by (simp_all only: abs_le_iff)
  then have "y - t \<le> b64 y" "b64 y \<le> y + t"
    by simp_all
  then have "y * (1 - u) \<le> b64 y" "b64 y \<le> y * (1 + u)"
    by (simp_all add: t_def algebra_simps)
  then show "y * (1 - 2 powi (- 53)) \<le> b64 y" "b64 y \<le> y * (1 + 2 powi (- 53))"
    by (simp_all only: u_def)
qed

lemma repeated_decay_bounds:
  assumes d: "2 powi (- 1022) \<le> d"
  shows "real n * d * (1 - 2 powi (- 53)) ^ n \<le> repeated_decay n d
    \<and> repeated_decay n d \<le> real n * d * (1 + 2 powi (- 53)) ^ n"
proof (induction n)
  case 0
  then show ?case
    by (simp add: repeated_decay_0)
next
  case (Suc n)
  define u :: real where "u = 2 powi (- 53)"
  have u: "0 < u" "u < 1"
    by (simp_all add: u_def power_int_minus)
  define S where "S = repeated_decay n d"
  from d have d0: "0 < d"
    by (rule less_le_trans [rotated]) simp
  from Suc have lo: "real n * d * (1 - u) ^ n \<le> S" and hi: "S \<le> real n * d * (1 + u) ^ n"
    by (simp_all add: S_def u_def)
  have p1: "(1 - u) ^ n \<le> 1" "0 \<le> (1 - u) ^ n"
    using u by (simp_all add: power_le_one)
  have p2: "1 \<le> (1 + u) ^ n"
    using u by simp
  from lo p1 d0 have S0: "0 \<le> S"
    by (meson mult_nonneg_nonneg of_nat_0_le_iff less_imp_le order_trans)
  have y: "2 powi (- 1022) \<le> S + d"
    using d S0 by simp
  have step: "repeated_decay (Suc n) d = b64 (S + d)"
    by (simp add: repeated_decay_Suc fadd_def S_def)
  have "real (Suc n) * d * (1 - u) ^ Suc n = (real n * d * (1 - u) ^ n + d * (1 - u) ^ n) * (1 - u)"
    by (simp add: algebra_simps)
  also have "\<dots> \<le> (S + d) * (1 - u)"
  proof (rule mult_right_mono)
    have "d * (1 - u) ^ n \<le> d * 1"
      using d0 p1 by (intro mult_left_mono) simp_all
    with lo show "real n * d * (1 - u) ^ n + d * (1 - u) ^ n \<le> S + d"
      by simp
    show "0 \<le> 1 - u"
      using u by simp
  qed
  also have "\<dots> \<le> b64 (S + d)"
    unfolding u_def using y by (rule b64_rel_bounds)
  finally have low: "real (Suc n) * d * (1 - u) ^ Suc n \<le> repeated_decay (Suc n) d"
    by (simp add: step)
  have "b64 (S + d) \<le> (S + d) * (1 + u)"
    unfolding u_def using y by (rule b64_rel_bounds)
  also have "\<dots> \<le> (real n * d * (1 + u) ^ n + d * (1 + u) ^ n) * (1 + u)"
  proof (rule mult_right_mono)
    have "d * 1 \<le> d * (1 + u) ^ n"
      using d0 p2 by (intro mult_left_mono) simp_all
    with hi show "S + d \<le> real n * d * (1 + u) ^ n + d * (1 + u) ^ n"
      by simp
    show "0 \<le> 1 + u"
      using u by simp
  qed
  also have "\<dots> = real (Suc n) * d * (1 + u) ^ Suc n"
    by (simp add: algebra_simps)
  finally have high: "repeated_decay (Suc n) d \<le> real (Suc n) * d * (1 + u) ^ Suc n"
    by (simp add: step)
  from low high show ?case
    by (simp only: u_def)
qed

lemma pow_bounds:
  fixes u :: real
  assumes "0 \<le> u" "u \<le> 1" "real m * u \<le> 1 / 2"
  shows "1 - real m * u \<le> (1 - u) ^ m" "(1 + u) ^ m \<le> 1 + 2 * (real m * u)"
proof -
  from assms have "1 + real m * (- u) \<le> (1 + (- u)) ^ m"
    by (intro Bernoulli_inequality) simp
  then show "1 - real m * u \<le> (1 - u) ^ m"
    by simp
  define q where "q = real m * u"
  have q: "0 \<le> q" "q \<le> 1 / 2"
    using assms by (simp_all add: q_def)
  have "(1 + u) ^ m \<le> exp u ^ m"
    using assms by (intro power_mono) simp_all
  also have "\<dots> = exp q"
    by (simp add: q_def exp_of_nat_mult)
  also have "\<dots> \<le> 1 + q + q\<^sup>2"
    using q by (intro exp_bound) simp_all
  also have "\<dots> \<le> 1 + 2 * q"
  proof -
    have "q * q \<le> 1 * q"
      using q by (intro mult_right_mono) simp_all
    then show ?thesis
      by (simp add: power2_eq_square)
  qed
  finally show "(1 + u) ^ m \<le> 1 + 2 * (real m * u)"
    by (simp add: q_def)
qed

lemma decay_bounds:
  assumes "2 powi (- 1000) \<le> cs"
  shows "cs * (1 / 10) * (1 - 2 powi (- 53)) ^ 2 \<le> fmul cs (b64 (1 / 10))"
    and "fmul cs (b64 (1 / 10)) \<le> cs * (1 / 10) * (1 + 2 powi (- 53)) ^ 2"
    and "2 powi (- 1022) \<le> fmul cs (b64 (1 / 10))"
proof -
  define u :: real where "u = 2 powi (- 53)"
  have u: "0 < u" "u \<le> 1 / 2"
    by (simp_all add: u_def power_int_minus)
  define c where "c = b64 (1 / 10)"
  have "(2::real) powi (- 1022) \<le> 2 powi (- 4)"
    by (intro power_int_increasing) simp_all
  also have "\<dots> \<le> 1 / 10"
    by (simp add: power_int_minus)
  finally have tenth: "(2::real) powi (- 1022) \<le> 1 / 10" .
  have c: "1 / 10 * (1 - u) \<le> c" "c \<le> 1 / 10 * (1 + u)"
    unfolding c_def u_def using tenth by (rule b64_rel_bounds)+
  from assms have cs: "0 < cs"
    by (rule less_le_trans [rotated]) simp
  have c20: "1 / 20 \<le> c"
  proof -
    have "(1::real) / 20 \<le> 1 / 10 * (1 - u)"
      using u by simp
    with c(1) show ?thesis
      by simp
  qed
  have prod: "2 powi (- 1021) \<le> cs * c"
  proof -
    have "(2::real) powi (- 1021) \<le> 2 powi (- 1000 + - 5)"
      by (intro power_int_increasing) simp_all
    also have "\<dots> = 2 powi (- 1000) * 2 powi (- 5)"
      by (rule power_int_add) simp
    also have "\<dots> \<le> cs * c"
    proof (rule mult_mono)
      show "2 powi (- 1000) \<le> cs"
        by (rule assms)
      have "(2::real) powi (- 5) \<le> 1 / 20"
        by (simp add: power_int_minus)
      with c20 show "2 powi (- 5) \<le> c"
        by simp
    qed (use cs in simp_all)
    finally show ?thesis .
  qed
  have "(2::real) powi (- 1022) \<le> 2 powi (- 1021)"
    by (intro power_int_increasing) simp_all
  with prod have prod': "2 powi (- 1022) \<le> cs * c"
    by simp
  have d: "cs * c * (1 - u) \<le> b64 (cs * c)" "b64 (cs * c) \<le> cs * c * (1 + u)"
    unfolding u_def using prod' by (rule b64_rel_bounds)+
  have "cs * (1 / 10) * (1 - u) ^ 2 = cs * (1 / 10 * (1 - u)) * (1 - u)"
    by (simp add: power2_eq_square)
  also have "\<dots> \<le> cs * c * (1 - u)"
    using c(1) cs u by (intro mult_right_mono mult_left_mono) simp_all
  also note d(1)
  finally show "cs * (1 / 10) * (1 - 2 powi (- 53)) ^ 2 \<le> fmul cs (b64 (1 / 10))"
    by (simp only: fmul_def c_def u_def)
  note d(2)
  also have "cs * c * (1 + u) \<le> cs * (1 / 10 * (1 + u)) * (1 + u)"
    using c(2) cs u by (intro mult_right_mono mult_left_mono) simp_all
  also have "\<dots> = cs * (1 / 10) * (1 + u) ^ 2"
    by (simp add: power2_eq_square)
  finally show "fmul cs (b64 (1 / 10)) \<le> cs * (1 / 10) * (1 + 2 powi (- 53)) ^ 2"
    by (simp only: fmul_def c_def u_def)
  have "(2::real) powi (- 1022) = 2 powi (- 1021 + - 1)"
    by simp
  also have "\<dots> = 2 powi (- 1021) * 2 powi (- 1)"
    by (rule power_int_add) simp
  also have "\<dots> \<le> cs * c * (1 - u)"
  proof (rule mult_mono)
    show "2 powi (- 1021) \<le> cs * c"
      by (rule prod)
    show "2 powi (- 1) \<le> 1 - u"
      using u by (simp add: power_int_minus)
  qed (use cs c20 in simp_all)
  also note d(1)
  finally show "2 powi (- 1022) \<le> fmul cs (b64 (1 / 10))"
    by (simp only: fmul_def c_def)
qed

lemma repeated_decay_accuracy:
  assumes cs: "2 powi (- 1000) \<le> cs" and n: "n \<le> 2 ^ 20"
  shows "\<bar>repeated_decay n (fmul cs (b64 (1 / 10))) - cs * (1 / 10) * real n\<bar>
    \<le> cs * (1 / 10) * real n * 2 powi (- 30)"
proof -
  define u :: real where "u = 2 powi (- 53)"
  have u: "0 < u" "u \<le> 1"
    by (simp_all add: u_def power_int_minus)
  define d where "d = fmul cs (b64 (1 / 10))"
  define X where "X = cs * (1 / 10) * real n"
  from cs have cs0: "0 < cs"
    by (rule less_le_trans [rotated]) simp
  have X0: "0 \<le> X"
    using cs0 by (simp add: X_def)
  have d: "cs * (1 / 10) * (1 - u) ^ 2 \<le> d" "d \<le> cs * (1 / 10) * (1 + u) ^ 2"
    "2 powi (- 1022) \<le> d"
    unfolding d_def u_def using cs by (rule decay_bounds)+
  have S: "real n * d * (1 - u) ^ n \<le> repeated_decay n d"
    "repeated_decay n d \<le> real n * d * (1 + u) ^ n"
    unfolding u_def using repeated_decay_bounds [OF d(3), of n] by simp_all
  have q: "real (n + 2) * u \<le> 2 powi (- 31)"
  proof -
    from n have "real n \<le> 2 ^ 20"
      by (metis of_nat_le_iff of_nat_numeral of_nat_power)
    then have "real (n + 2) * u \<le> (2 ^ 20 + 2) * u"
      using u by (intro mult_right_mono) simp_all
    also have "\<dots> \<le> 2 powi (- 31)"
      by (simp add: u_def power_int_minus)
    finally show ?thesis .
  qed
  have q': "real (n + 2) * u \<le> 1 / 2"
  proof -
    have "(2::real) powi (- 31) \<le> 1 / 2"
      by (simp add: power_int_minus)
    with q show ?thesis
      by simp
  qed
  have pw: "1 - real (n + 2) * u \<le> (1 - u) ^ (n + 2)"
    "(1 + u) ^ (n + 2) \<le> 1 + 2 * (real (n + 2) * u)"
    using u q' by (intro pow_bounds; simp)+
  have lo: "X * (1 - 2 powi (- 31)) \<le> repeated_decay n d"
  proof -
    have "X * (1 - 2 powi (- 31)) \<le> X * (1 - u) ^ (n + 2)"
      using X0 pw(1) q by (intro mult_left_mono) simp_all
    also have "\<dots> = real n * (cs * (1 / 10) * (1 - u) ^ 2) * (1 - u) ^ n"
      by (simp add: X_def power_add power2_eq_square)
    also have "\<dots> \<le> real n * d * (1 - u) ^ n"
      using d(1) u by (intro mult_right_mono mult_left_mono) simp_all
    also note S(1)
    finally show ?thesis .
  qed
  have hi: "repeated_decay n d \<le> X * (1 + 2 powi (- 30))"
  proof -
    note S(2)
    also have "real n * d * (1 + u) ^ n \<le> real n * (cs * (1 / 10) * (1 + u) ^ 2) * (1 + u) ^ n"
      using d(2) u by (intro mult_right_mono mult_left_mono) simp_all
    also have "\<dots> = X * (1 + u) ^ (n + 2)"
      by (simp add: X_def power_add power2_eq_square)
    also have "\<dots> \<le> X * (1 + 2 powi (- 30))"
    proof (rule mult_left_mono)
      have "(2::real) * 2 powi (- 31) = 2 powi (- 30)"
        by (simp add: power_int_minus)
      with pw(2) q show "(1 + u) ^ (n + 2) \<le> 1 + 2 powi (- 30)"
        by simp
    qed (rule X0)
    finally show ?thesis .
  qed
  have "(2::real) powi (- 31) \<le> 2 powi (- 30)"
    by (intro power_int_increasing) simp_all
  with X0 have "X * 2 powi (- 31) \<le> X * 2 powi (- 30)"
    by (intro mult_left_mono)
  moreover define t where "t = X * 2 powi (- 30)"
  moreover define t' where "t' = X * 2 powi (- 31)"
  moreover have "X * (1 - 2 powi (- 31)) = X - t'" "X * (1 + 2 powi (- 30)) = X + t"
    by (simp_all add: t_def t'_def algebra_simps)
  ultimately have "X - t \<le> repeated_decay n d" "repeated_decay n d \<le> X + t"
    using lo hi by simp_all
  then have "\<bar>repeated_decay n d - X\<bar> \<le> t"
    by (simp only: abs_le_iff) simp
  then have "\<bar>repeated_decay n d - X\<bar> \<le> X * 2 powi (- 30)"
    by (simp only: t_def)
  then show ?thesis
    by (simp only: d_def X_def)
qed

lemma repeated_decay_exceeds:
  assumes cs: "2 powi (- 1000) \<le> cs" and n: "11 \<le> n" "n \<le> 2 ^ 20"
  shows "cs < repeated_decay n (fmul cs (b64 (1 / 10)))"
proof -
  define X where "X = cs * (1 / 10) * real n"
  define S where "S = repeated_decay n (fmul cs (b64 (1 / 10)))"
  from cs have cs0: "0 < cs"
    by (rule less_le_trans [rotated]) simp
  from n(1) have "11 \<le> real n"
    by simp
  then have "cs * (1 / 10) * 11 \<le> cs * (1 / 10) * real n"
    using cs0 by (intro mult_left_mono) simp_all
  then have X: "cs * (11 / 10) \<le> X"
    by (simp add: X_def)
  define t where "t = X * 2 powi (- 30)"
  have "\<bar>S - X\<bar> \<le> t"
    unfolding S_def X_def t_def using cs n(2) by (rule repeated_decay_accuracy)
  then have "X - t \<le> S"
    by (simp only: abs_le_iff) simp
  moreover have "(2::real) powi (- 30) \<le> 1 / 100"
    by (simp add: power_int_minus)
  then have "t \<le> X * (1 / 100)"
    unfolding t_def using X cs0 by (intro mult_left_mono) simp_all
  ultimately have "X * (99 / 100) \<le> S"
    by simp
  moreover from X have "cs * (11 / 10) * (99 / 100) \<le> X * (99 / 100)"
    by (intro mult_right_mono) simp_all
  moreover have "cs < cs * (11 / 10) * (99 / 100)"
    using cs0 by simp
  ultimately show ?thesis
    by (simp add: S_def)
qed

lemma exp_down_small: "a < 2 powi (e - int n + 53) \<Longrightarrow> exp_down n a e = e - int n"
proof (induction n arbitrary: e)
  case 0
  then show ?case by simp
next
  case (Suc n)
  have "(2::real) powi (e - int (Suc n) + 53) \<le> 2 powi (e + 52)"
    by (intro power_int_increasing) simp_all
  with Suc.prems have "\<not> 2 powi (e + 52) \<le> a"
    by simp
  moreover have "exp_down n a (e - 1) = e - 1 - int n"
    using Suc.prems by (intro Suc.IH) (simp add: algebra_simps)
  ultimately show ?case
    by simp
qed

lemma b64_tiny:
  assumes "\<bar>x\<bar> < 2 powi (- 1075)"
  shows "b64 x = 0"
proof -
  have "(2::real) powi (- 1075) \<le> 2 powi (- 1021)"
    by (intro power_int_increasing) simp_all
  with assms have small: "\<bar>x\<bar> < 2 powi (- 52 - int 1022 + 53)"
    by simp
  have "(2::real) powi (- 1075) \<le> 2 powi 0"
    by (intro power_int_increasing) simp_all
  with assms have "\<bar>x\<bar> < 1"
    by simp
  then have e: "b64_exponent \<bar>x\<bar> = - 1074"
    using exp_down_small [OF small] by (simp add: b64_exponent_def)
  have "(2::real) powi (- 1075) = 2 powi (- 1074 + - 1)"
    by simp
  also have "\<dots> = 2 powi (- 1074) * 2 powi (- 1)"
    by (rule power_int_add) simp
  finally have "\<bar>x\<bar> < 2 powi (- 1074) * (1 / 2)"
    using assms by (simp add: power_int_minus)
  then have "\<bar>x\<bar> / 2 powi (- 1074) < 1 / 2"
    by (simp add: pos_divide_less_eq mult.commute)
  then have "\<bar>x / 2 powi (- 1074) - of_int 0\<bar> < 1 / 2"
    by simp
  then have "round_half_even (x / 2 powi (- 1074)) = 0"
    by (rule round_half_even_eq)
  then show ?thesis
    by (simp add: b64_def e)
qed

lemma repeated_decay_zero: "repeated_decay n 0 = 0"
  by (induction n) (simp_all add: repeated_decay_0 repeated_decay_Suc fadd_def b64_0)

lemma first_error_replicate:
  "\<not> is_malformed fromisoformat doc \<Longrightarrow> \<not> is_incomparable fromisoformat doc \<Longrightarrow>
   first_error fromisoformat (replicate n doc) = None"
  by (induction n) simp_all

lemma expired_documents_replicate:
  "is_expired fromisoformat now doc \<Longrightarrow>
   expired_documents fromisoformat now (replicate n doc) = replicate n doc"
  by (simp add: expired_documents_def)

text \<open>The model runs: documents that expired before the second day after the epoch, one
  of them dated by a string.\<close>

lemma example_documents:
  "is_expired example_fromisoformat 172800000000 expired_doc"
  "is_expired example_fromisoformat 172800000000 string_dated_doc"
  "\<not> is_malformed example_fromisoformat expired_doc"
  "\<not> is_malformed example_fromisoformat string_dated_doc"
  "\<not> is_incomparable example_fromisoformat expired_doc"
  "\<not> is_incomparable example_fromisoformat string_dated_doc"
  "is_incomparable example_fromisoformat aware_dated_doc"
  "\<not> is_malformed example_fromisoformat aware_dated_doc"
  by (simp_all add: is_expired_def is_malformed_def is_incomparable_def example_fromisoformat_def
      expired_doc_def string_dated_doc_def aware_dated_doc_def)

lemma example_first_error:
  "first_error example_fromisoformat (string_dated_doc # replicate n expired_doc) = None"
  "first_error example_fromisoformat (replicate n expired_doc) = None"
  "first_error example_fromisoformat [expired_doc, aware_dated_doc] = Some TypeError"
  by (simp_all add: example_documents first_error_replicate)

lemma example_expired_count:
  "expired_count example_fromisoformat 172800000000 (string_dated_doc # replicate n expired_doc)
     = Suc n"
  "expired_count example_fromisoformat 172800000000 (replicate n expired_doc) = n"
  by (simp_all add: expired_count_def expired_documents_def example_documents)

lemma repeated_decay_example:
  "repeated_decay 10 (fmul 1 (b64 (1 / 10))) = 9007199254740991 / 2 ^ 53"
  "repeated_decay 11 (fmul 500 (b64 (1 / 10))) = 550"
  by (simp_all add: eval_nat_numeral repeated_decay_Suc repeated_decay_0 fadd_def fmul_def
      b64_values)

lemma smallest_score_decay: "fmul (2 powi (- 1074)) (b64 (1 / 10)) = 0"
proof -
  have "\<bar>2 powi (- 1074) * (3602879701896397 / 36028797018963968 :: real)\<bar>
      < 2 powi (- 1074) * (1 / 2)"
    by (simp add: abs_mult)
  also have "(2::real) powi (- 1074) * (1 / 2) = 2 powi (- 1074) * 2 powi (- 1)"
    by (simp add: power_int_minus)
  also have "\<dots> = 2 powi (- 1074 + - 1)"
    by (rule power_int_add [symmetric]) simp
  finally have "\<bar>2 powi (- 1074) * (3602879701896397 / 36028797018963968 :: real)\<bar>
      < 2 powi (- 1075)"
    by simp
  then have "b64 (2 powi (- 1074) * (3602879701896397 / 36028797018963968)) = 0"
    by (rule b64_tiny)
  then show ?thesis
    by (simp only: fmul_def b64_value_2)
qed

lemma zero_decay_total:
  "fmul s (b64 (1 / 10)) = 0 \<Longrightarrow>
   map_sum id fst
     (calculate_document_expiry_decay DecayConfig_defaults example_fromisoformat 172800000000
        (replicate n expired_doc) s) = Inr 0"
  by (simp add: calculate_document_expiry_decay_eq example_first_error example_expired_count
      DecayConfig_defaults_def repeated_decay_zero)

text \<open>
  C7, as the code has it. \<^verbatim>\<open>calculate_document_expiry_decay\<close> raises the exception of
  the first document whose expiry date is a malformed string (\<^verbatim>\<open>ValueError\<close>) or
  carries a time zone (\<^verbatim>\<open>TypeError\<close>). Otherwise it returns, with one entry per expired
  document, the total of \<open>n\<close> float additions of the per-document decay
  \<^verbatim>\<open>current_score * DOC_EXPIRY_DECAY\<close>, where \<open>n\<close> is the number of expired documents:
  there is no cap. With the default rate 0.10, a score between \<open>2 powi (- 1000)\<close> and
  \<open>2 powi 1000\<close> and up to \<open>2 ^ 20\<close> expired documents, that total is
  \<open>current_score * 0.10 * n\<close> up to a relative error of \<open>2 powi (- 30)\<close>, and with 11 or
  more expired documents it exceeds the score.
\<close>

theorem C7_document_expiry_decay:
  "calculate_document_expiry_decay config fromisoformat now documents current_score =
     (case first_error fromisoformat documents of
        Some e \<Rightarrow> Inl e
      | None \<Rightarrow>
          Inr (repeated_decay (expired_count fromisoformat now documents)
                 (fmul current_score (b64 (DOC_EXPIRY_DECAY config))),
               map (\<lambda>doc. \<lparr> expired_document_type = doc_type doc,
                      expired_at = stated_instant fromisoformat doc,
                      decay_applied = fmul current_score (b64 (DOC_EXPIRY_DECAY config)) \<rparr>)
                 (expired_documents fromisoformat now documents)))
   \<and> (first_error fromisoformat documents = None
        \<and> 2 powi (- 1000) \<le> current_score \<and> current_score \<le> 2 powi 1000
        \<and> expired_count fromisoformat now documents \<le> 2 ^ 20 \<longrightarrow>
        (\<exists>total_decay expired_docs.
           calculate_document_expiry_decay DecayConfig_defaults fromisoformat now documents
             current_score = Inr (total_decay, expired_docs)
           \<and> length expired_docs = expired_count fromisoformat now documents
           \<and> \<bar>total_decay
                - current_score * 0.10 * real (expired_count fromisoformat now documents)\<bar>
               \<le> current_score * 0.10 * real (expired_count fromisoformat now documents)
                   * 2 powi (- 30)
           \<and> (11 \<le> expired_count fromisoformat now documents \<longrightarrow>
                current_score < total_decay)))"
proof -
  define n where "n = expired_count fromisoformat now documents"
  have acc: "\<bar>repeated_decay n (fmul current_score (b64 0.10)) - current_score * 0.10 * real n\<bar>
          \<le> current_score * 0.10 * real n * 2 powi (- 30)"
    if "2 powi (- 1000) \<le> current_score" "n \<le> 2 ^ 20"
    using repeated_decay_accuracy [OF that] by simp
  have exc: "current_score < repeated_decay n (fmul current_score (b64 0.10))"
    if "2 powi (- 1000) \<le> current_score" "11 \<le> n" "n \<le> 2 ^ 20"
    using repeated_decay_exceeds [OF that] by simp
  have returns: "calculate_document_expiry_decay DecayConfig_defaults fromisoformat now documents
        current_score =
      Inr (repeated_decay n (fmul current_score (b64 0.10)),
           map (\<lambda>doc. \<lparr> expired_document_type = doc_type doc,
                  expired_at = stated_instant fromisoformat doc,
                  decay_applied = fmul current_score (b64 0.10) \<rparr>)
             (expired_documents fromisoformat now documents))"
    if "first_error fromisoformat documents = None"
    using that
    by (simp add: calculate_document_expiry_decay_eq DecayConfig_defaults_def n_def)
  have len: "length (map (\<lambda>doc. \<lparr> expired_document_type = doc_type doc,
                  expired_at = stated_instant fromisoformat doc,
                  decay_applied = fmul current_score (b64 0.10) \<rparr>)
             (expired_documents fromisoformat now documents)) = n"
    by (simp add: n_def expired_count_def)
  have default: "\<exists>total_decay expired_docs.
           calculate_document_expiry_decay DecayConfig_defaults fromisoformat now documents
             current_score = Inr (total_decay, expired_docs)
           \<and> length expired_docs = n
           \<and> \<bar>total_decay - current_score * 0.10 * real n\<bar>
               \<le> current_score * 0.10 * real n * 2 powi (- 30)
           \<and> (11 \<le> n \<longrightarrow> current_score < total_decay)"
    if "first_error fromisoformat documents = None" "2 powi (- 1000) \<le> current_score" "n \<le> 2 ^ 20"
    using returns [OF that(1)] len acc [OF that(2,3)] exc [OF that(2) _ that(3)]
    by blast
  show ?thesis
    using calculate_document_expiry_decay_eq [of config fromisoformat now documents current_score]
      default
    unfolding n_def by blast
qed

theorem C7_document_expiry_decay_witness:
  "first_error example_fromisoformat (string_dated_doc # replicate 10 expired_doc) = None
   \<and> expired_count example_fromisoformat 172800000000
         (string_dated_doc # replicate 10 expired_doc) = 11
   \<and> (\<exists>total_decay expired_docs.
         calculate_document_expiry_decay DecayConfig_defaults example_fromisoformat 172800000000
           (string_dated_doc # replicate 10 expired_doc) 500 = Inr (total_decay, expired_docs)
         \<and> length expired_docs = 11
         \<and> \<bar>total_decay - 500 * 0.10 * 11\<bar> \<le> 500 * 0.10 * 11 * 2 powi (- 30)
         \<and> 500 < total_decay)
   \<and> map_sum id fst
         (calculate_document_expiry_decay DecayConfig_defaults example_fromisoformat 172800000000
            (string_dated_doc # replicate 10 expired_doc) 500) = Inr 550
   \<and> calculate_document_expiry_decay DecayConfig_defaults example_fromisoformat 172800000000
         [expired_doc, aware_dated_doc] 500 = Inl TypeError"
proof -
  have range: "2 powi (- 1000) \<le> (500::real)" "(500::real) \<le> 2 powi 1000"
  proof -
    have "(2::real) powi (- 1000) \<le> 2 powi 0"
      by (intro power_int_increasing) simp_all
    then show "2 powi (- 1000) \<le> (500::real)"
      by simp
    have "(2::real) powi 9 \<le> 2 powi 1000"
      by (intro power_int_increasing) simp_all
    then show "(500::real) \<le> 2 powi 1000"
      by simp
  qed
  have none: "first_error example_fromisoformat (string_dated_doc # replicate 10 expired_doc) = None"
    by (rule example_first_error)
  have count: "expired_count example_fromisoformat 172800000000
         (string_dated_doc # replicate 10 expired_doc) = 11"
    by (simp add: example_expired_count)
  note ok = C7_document_expiry_decay [where config = DecayConfig_defaults
      and fromisoformat = example_fromisoformat and now = 172800000000
      and documents = "string_dated_doc # replicate 10 expired_doc" and current_score = 500]
  note raises = C7_document_expiry_decay [where config = DecayConfig_defaults
      and fromisoformat = example_fromisoformat and now = 172800000000
      and documents = "[expired_doc, aware_dated_doc]" and current_score = 500]
  have total: "map_sum id fst
         (calculate_document_expiry_decay DecayConfig_defaults example_fromisoformat 172800000000
            (string_dated_doc # replicate 10 expired_doc) 500) = Inr 550"
    using ok [THEN conjunct1]
    by (simp add: example_documents first_error_replicate example_expired_count
        DecayConfig_defaults_def repeated_decay_example)
  have error: "calculate_document_expiry_decay DecayConfig_defaults example_fromisoformat
      172800000000 [expired_doc, aware_dated_doc] 500 = Inl TypeError"
    using raises [THEN conjunct1] by (simp add: example_documents)
  have bound: "\<exists>total_decay expired_docs.
         calculate_document_expiry_decay DecayConfig_defaults example_fromisoformat 172800000000
           (string_dated_doc # replicate 10 expired_doc) 500 = Inr (total_decay, expired_docs)
         \<and> length expired_docs = 11
         \<and> \<bar>total_decay - 500 * 0.10 * 11\<bar> \<le> 500 * 0.10 * 11 * 2 powi (- 30)
         \<and> 500 < total_decay"
    using ok [THEN conjunct2] none range unfolding count by simp
  from none count bound total error show ?thesis
    by (intro conjI)
qed

text \<open>The claim as the spec words it makes the total equal to
  \<open>current_score * 0.10 * n\<close>, and greater than any positive score from 11 expired
  documents on. With the score 1.0 and ten expired documents the ten additions of the
  binary64 number 0.1 give 0.9999999999999999, not 1.0; with the smallest positive binary64
  number as score the per-document decay rounds to 0.0, so eleven expired documents give
  the total 0.0.\<close>

theorem C7_total_decay_counterexample:
  "map_sum id fst
     (calculate_document_expiry_decay DecayConfig_defaults example_fromisoformat 172800000000
        (replicate 10 expired_doc) 1) = Inr (9007199254740991 / 2 ^ 53)
   \<and> (9007199254740991 / 2 ^ 53 :: real) \<noteq> 1 * 0.10 * 10
   \<and> map_sum id fst
     (calculate_document_expiry_decay DecayConfig_defaults example_fromisoformat 172800000000
        (replicate 11 expired_doc) (2 powi (- 1074))) = Inr 0
   \<and> (0::real) < 2 powi (- 1074)"
proof -
  have ten: "map_sum id fst
     (calculate_document_expiry_decay DecayConfig_defaults example_fromisoformat 172800000000
        (replicate 10 expired_doc) 1) = Inr (9007199254740991 / 2 ^ 53)"
    by (simp add: calculate_document_expiry_decay_eq example_first_error example_expired_count
        DecayConfig_defaults_def repeated_decay_example)
  have differ: "(9007199254740991 / 2 ^ 53 :: real) \<noteq> 1 * 0.10 * 10"
    by simp
  have eleven: "map_sum id fst
     (calculate_document_expiry_decay DecayConfig_defaults example_fromisoformat 172800000000
        (replicate 11 expired_doc) (2 powi (- 1074))) = Inr 0"
    using zero_decay_total [OF smallest_score_decay, of 11] .
  have positive: "(0::real) < 2 powi (- 1074)"
    by simp
  from ten differ eleven positive show ?thesis
    by (intro conjI)
qed

section \<open>Properties of the pattern matcher\<close>

lemma setitem_new: "k \<notin> fst ` set d \<Longrightarrow> setitem d k v = d @ [(k, v)]"
  by (induction d k v rule: setitem.induct) auto

lemma setitem_last: "k \<notin> fst ` set d \<Longrightarrow> setitem (d @ [(k, v)]) k v' = d @ [(k, v')]"
  by (induction d k v rule: setitem.induct) auto

lemma map_of_new: "k \<notin> fst ` set d \<Longrightarrow> map_of d k = None"
  by (simp add: map_of_eq_None_iff)

lemma map_of_last: "k \<notin> fst ` set d \<Longrightarrow> map_of (d @ [(k, v)]) k = Some v"
  by (simp add: map_add_def map_of_new)

lemma add_hit_new: "c \<notin> fst ` set d \<Longrightarrow> add_hit d (c, tp) = d @ [(c, [fst tp])]"
  by (cases tp) (simp add: add_hit_def map_of_new setitem_new)

lemma add_hit_last:
  "c \<notin> fst ` set d \<Longrightarrow> add_hit (d @ [(c, hs)]) (c, tp) = d @ [(c, hs @ [fst tp])]"
  by (cases tp) (simp add: add_hit_def map_of_last setitem_last del: map_of_append)

lemma foldl_add_hit_last:
  "c \<notin> fst ` set d \<Longrightarrow>
   foldl add_hit (d @ [(c, hs)]) (map (Pair c) tps) = d @ [(c, hs @ map fst tps)]"
  by (induction tps arbitrary: hs) (simp_all add: add_hit_last)

lemma foldl_add_hit_block:
  "c \<notin> fst ` set d \<Longrightarrow>
   foldl add_hit d (map (Pair c) tps) = (if tps = [] then d else d @ [(c, map fst tps)])"
proof (cases tps)
  case Nil
  then show ?thesis by simp
next
  case (Cons tp tps')
  assume c: "c \<notin> fst ` set d"
  show ?thesis
    using foldl_add_hit_last [OF c, of "[fst tp]" tps']
    by (simp add: Cons add_hit_new [OF c])
qed

text \<open>The matched texts of the patterns \<open>ps\<close> in the cleaned text.\<close>

lemma block_eq:
  "concat (map (\<lambda>pattern. map (\<lambda>m. (c, match_text m, pattern)) (f pattern)) ps) =
   map (Pair c) (concat (map (\<lambda>pattern. map (\<lambda>m. (match_text m, pattern)) (f pattern)) ps))"
  by (induction ps) (simp_all add: comp_def)

lemma block_texts:
  "map fst (concat (map (\<lambda>pattern. map (\<lambda>m. (match_text m, pattern)) (f pattern)) ps)) =
   map match_text (concat (map f ps))"
  by (induction ps) (simp_all add: comp_def)

lemma block_empty:
  "concat (map (\<lambda>pattern. map (\<lambda>m. (match_text m, pattern)) (f pattern)) ps) = [] \<longleftrightarrow>
   concat (map f ps) = []"
  by (induction ps) simp_all

lemma foldl_add_hit_categories:
  "distinct (map fst cats) \<Longrightarrow> fst ` set d \<inter> fst ` set cats = {} \<Longrightarrow>
   foldl add_hit d
     (concat (map (\<lambda>(category, patterns).
        concat (map (\<lambda>pattern. map (\<lambda>m. (category, match_text m, pattern)) (f pattern)) patterns))
        cats)) =
   d @ map (\<lambda>(category, patterns). (category, map match_text (concat (map f patterns))))
         (filter (\<lambda>(category, patterns). concat (map f patterns) \<noteq> []) cats)"
proof (induction cats arbitrary: d)
  case Nil
  then show ?case by simp
next
  case (Cons cp cats)
  obtain c ps where cp: "cp = (c, ps)" by (cases cp)
  from Cons.prems cp have c: "c \<notin> fst ` set d" and c': "c \<notin> fst ` set cats"
    and dist: "distinct (map fst cats)" and disj: "fst ` set d \<inter> fst ` set cats = {}"
    by auto
  let ?tps = "concat (map (\<lambda>pattern. map (\<lambda>m. (match_text m, pattern)) (f pattern)) ps)"
  let ?d' = "if ?tps = [] then d else d @ [(c, map fst ?tps)]"
  have disj': "fst ` set ?d' \<inter> fst ` set cats = {}"
    using disj c' by auto
  have step: "foldl add_hit ?d'
     (concat (map (\<lambda>(category, patterns).
        concat (map (\<lambda>pattern. map (\<lambda>m. (category, match_text m, pattern)) (f pattern)) patterns))
        cats)) =
   ?d' @ map (\<lambda>(category, patterns). (category, map match_text (concat (map f patterns))))
         (filter (\<lambda>(category, patterns). concat (map f patterns) \<noteq> []) cats)"
    using dist disj' by (rule Cons.IH)
  show ?case
    using step
    by (simp add: cp block_eq foldl_add_hit_block [OF c] block_texts block_empty)
qed

lemma distinct_lookup:
  "distinct (map fst cats) \<Longrightarrow> (c, ps) \<in> set cats \<Longrightarrow> get_default cats c dflt = ps"
  by (simp add: get_default_def)

lemma by_keys:
  assumes "distinct (map fst cats)"
  shows "map (\<lambda>(c, ps). G c ps) (filter (\<lambda>(c, ps). Q ps) cats) =
         map (\<lambda>c. G c (get_default cats c dflt)) (filter (\<lambda>c. Q (get_default cats c dflt)) (map fst cats))"
proof -
  have "filter (\<lambda>c. Q (get_default cats c dflt)) (map fst cats) =
        map fst (filter (\<lambda>x. Q (get_default cats (fst x) dflt)) cats)"
    by (simp add: filter_map comp_def)
  also have "filter (\<lambda>x. Q (get_default cats (fst x) dflt)) cats = filter (\<lambda>(c, ps). Q ps) cats"
    by (rule filter_cong) (auto simp add: distinct_lookup [OF assms])
  finally have keys: "filter (\<lambda>c. Q (get_default cats c dflt)) (map fst cats) =
      map fst (filter (\<lambda>(c, ps). Q ps) cats)" .
  have "map (\<lambda>c. G c (get_default cats c dflt)) (map fst (filter (\<lambda>(c, ps). Q ps) cats)) =
        map (\<lambda>(c, ps). G c ps) (filter (\<lambda>(c, ps). Q ps) cats)"
    unfolding map_map
    by (rule map_cong) (auto simp add: distinct_lookup [OF assms])
  with keys show ?thesis
    by simp
qed

lemma distinct_SCAM_PATTERNS: "distinct (map fst SCAM_PATTERNS)"
  by (simp add: SCAM_PATTERNS_def)

lemma category_hits_eq:
  "foldl add_hit [] (detect_patterns lib text0) =
   map (\<lambda>c. (c, map match_text (category_matches lib text0 c))) (matched_categories lib text0)"
proof -
  let ?f = "\<lambda>pattern. re_findall lib pattern True (clean_text lib text0)"
  have "foldl add_hit [] (detect_patterns lib text0) =
     map (\<lambda>(category, patterns). (category, map match_text (concat (map ?f patterns))))
         (filter (\<lambda>(category, patterns). concat (map ?f patterns) \<noteq> []) SCAM_PATTERNS)"
    using foldl_add_hit_categories [OF distinct_SCAM_PATTERNS, of "[]" ?f]
    by (simp add: detect_patterns_def Let_def)
  also have "\<dots> =
     map (\<lambda>c. (c, map match_text (concat (map ?f (get_default SCAM_PATTERNS c [])))))
       (filter (\<lambda>c. concat (map ?f (get_default SCAM_PATTERNS c [])) \<noteq> []) (map fst SCAM_PATTERNS))"
    by (rule by_keys [OF distinct_SCAM_PATTERNS])
  also have "\<dots> =
     map (\<lambda>c. (c, map match_text (category_matches lib text0 c))) (matched_categories lib text0)"
    by (simp add: category_matches_def matched_categories_def hit_count_def Suc_le_eq)
  finally show ?thesis .
qed

lemma foldl_score_category:
  "foldl score_category (w, rs) d =
     (foldl fadd w
        (map (\<lambda>(c, h).
           min (fmul (fmul (float_of_int (int (length h))) (get_default CATEGORY_WEIGHTS c 1.0))
                  (b64 0.1)) (b64 0.3)) d),
      rs @ map (\<lambda>(c, h). \<lparr> reason_category = c, reason_hits = h,
          reason_contribution =
            min (fmul (fmul (float_of_int (int (length h))) (get_default CATEGORY_WEIGHTS c 1.0))
                   (b64 0.1)) (b64 0.3) \<rparr>) d)"
  by (induction d arbitrary: w rs) (simp_all add: score_category_def Let_def split: prod.splits)

lemma calculate_scam_score_eq:
  "calculate_scam_score lib text0 =
     (min (float_sum (map (\<lambda>c.
             min (fmul (fmul (float_of_int (int (hit_count lib text0 c)))
                          (get_default CATEGORY_WEIGHTS c 1.0)) (b64 0.1)) (b64 0.3))
           (matched_categories lib text0))) 1.0,
      map (\<lambda>c. \<lparr> reason_category = c,
             reason_hits = map match_text (category_matches lib text0 c),
             reason_contribution =
               min (fmul (fmul (float_of_int (int (hit_count lib text0 c)))
                            (get_default CATEGORY_WEIGHTS c 1.0)) (b64 0.1)) (b64 0.3) \<rparr>)
        (matched_categories lib text0))"
proof (cases "detect_patterns lib text0 = []")
  case True
  with category_hits_eq [of lib text0] have "matched_categories lib text0 = []"
    by simp
  with True show ?thesis
    by (simp add: calculate_scam_score_def float_sum_def)
next
  case False
  then show ?thesis
    by (simp add: calculate_scam_score_def Let_def foldl_score_category category_hits_eq
        float_sum_def comp_def hit_count_def)
qed

lemma get_default_CATEGORY_WEIGHTS_nonneg: "0 \<le> get_default CATEGORY_WEIGHTS c 1.0"
  by (simp add: get_default_def CATEGORY_WEIGHTS_def b64_nonneg)

lemma foldl_fadd_nonneg: "0 \<le> w \<Longrightarrow> \<forall>x \<in> set xs. 0 \<le> x \<Longrightarrow> 0 \<le> foldl fadd w xs"
  by (induction xs arbitrary: w) (simp_all add: fadd_def b64_nonneg)

lemma category_score_nonneg:
  "0 \<le> min (fmul (fmul (float_of_int (int n)) (get_default CATEGORY_WEIGHTS c 1.0)) (b64 0.1))
          (b64 0.3)"
  using get_default_CATEGORY_WEIGHTS_nonneg [of c]
  by (simp add: fmul_def float_of_int_def b64_nonneg)

lemma calculate_scam_score_bounds:
  "0 \<le> fst (calculate_scam_score lib text0) \<and> fst (calculate_scam_score lib text0) \<le> 1"
proof -
  have "0 \<le> float_sum (map (\<lambda>c.
             min (fmul (fmul (float_of_int (int (hit_count lib text0 c)))
                          (get_default CATEGORY_WEIGHTS c 1.0)) (b64 0.1)) (b64 0.3))
           (matched_categories lib text0))"
    unfolding float_sum_def
    by (rule foldl_fadd_nonneg) (use category_score_nonneg in auto)
  then show ?thesis
    unfolding calculate_scam_score_eq by simp
qed

lemma CATEGORY_WEIGHTS_table:
  "map fst SCAM_PATTERNS =
     [''urgency'', ''false_guarantee'', ''suspicious_payment'', ''too_good'', ''pressure'',
      ''secrecy'', ''impersonation'']"
  "map (\<lambda>c. get_default CATEGORY_WEIGHTS c 1.0) (map fst SCAM_PATTERNS) =
     [1.0, 1.5, 2.0, 1.5, 1.0, 1.5, b64 1.2]"
  by (simp_all add: SCAM_PATTERNS_def CATEGORY_WEIGHTS_def get_default_def)

lemma get_default_subset:
  "set (get_default cats c []) \<subseteq> set (concat (map snd cats))"
  by (induction cats) (auto simp add: get_default_def)

lemma empty_text_no_matches:
  assumes "clean_text lib [] = []"
    and "\<forall>pattern \<in> set (concat (map snd SCAM_PATTERNS)). re_findall lib pattern True [] = []"
  shows "matched_categories lib [] = []"
proof -
  have "category_matches lib [] c = []" for c
    using assms get_default_subset [of SCAM_PATTERNS c]
    by (auto simp add: category_matches_def)
  then show ?thesis
    by (simp add: matched_categories_def hit_count_def)
qed

text \<open>The model runs: in \<open>example_lib\<close> the text \<open>urgent official\<close> has one urgency hit
  and one impersonation hit.\<close>

lemma matched_categories_example:
  "matched_categories example_lib ''urgent official'' = [''urgency'', ''impersonation'']"
  "hit_count example_lib ''urgent official'' ''urgency'' = 1"
  "hit_count example_lib ''urgent official'' ''impersonation'' = 1"
  "category_matches example_lib ''urgent official'' ''urgency'' = [Match ''urgent'']"
  "category_matches example_lib ''urgent official'' ''impersonation'' = [Match ''official'']"
  by (simp_all add: matched_categories_def hit_count_def category_matches_def clean_text_def
      example_lib_def SCAM_PATTERNS_def get_default_def)

lemma example_weights:
  "get_default CATEGORY_WEIGHTS ''urgency'' 1 = 1"
  "get_default CATEGORY_WEIGHTS ''impersonation'' 1 = b64 (6 / 5)"
  by (simp_all add: CATEGORY_WEIGHTS_def get_default_def)

lemma calculate_scam_score_example:
  "fst (calculate_scam_score example_lib ''urgent official'') = 7926335344172073 / 2 ^ 55"
  by (simp add: calculate_scam_score_eq matched_categories_example example_weights
      float_sum_def fadd_def fmul_def float_of_int_def b64_values)

text \<open>
  C8. For every input text and whatever the regex library finds in it, the score of the
  pattern matcher is the minimum of 1.0 and the sum, over the categories with at least
  one regex match in the order of the pattern table, of
  \<open>min (hit_count * category_weight * 0.1) 0.3\<close>, computed in the float operations of
  the code: the hit count of a category is the number of results of \<^verbatim>\<open>re.findall\<close>
  for its patterns on the cleaned text, and the weights are urgency 1.0, false_guarantee
  1.5, suspicious_payment 2.0, too_good 1.5, pressure 1.0, secrecy 1.5, impersonation 1.2.
  The reason list has one entry per such category, with the matched texts and the
  contribution. So the score is in [0, 1]; for a text with no matches the result is the
  score 0.0 with an empty reason list; and so it is for the empty text, which the library
  cleans to the empty text and in which it finds no pattern of the table.
\<close>

theorem C8_pattern_matcher_score:
  "fst (calculate_scam_score lib text0) =
     min (float_sum (map (\<lambda>c.
            min (fmul (fmul (float_of_int (int (hit_count lib text0 c)))
                         (get_default CATEGORY_WEIGHTS c 1.0)) (b64 0.1)) (b64 0.3))
          (matched_categories lib text0))) 1.0
   \<and> snd (calculate_scam_score lib text0) =
       map (\<lambda>c. \<lparr> reason_category = c,
              reason_hits = map match_text (category_matches lib text0 c),
              reason_contribution =
                min (fmul (fmul (float_of_int (int (hit_count lib text0 c)))
                             (get_default CATEGORY_WEIGHTS c 1.0)) (b64 0.1)) (b64 0.3) \<rparr>)
         (matched_categories lib text0)
   \<and> map fst SCAM_PATTERNS =
       [''urgency'', ''false_guarantee'', ''suspicious_payment'', ''too_good'', ''pressure'',
        ''secrecy'', ''impersonation'']
   \<and> map (\<lambda>c. get_default CATEGORY_WEIGHTS c 1.0) (map fst SCAM_PATTERNS) =
       [1.0, 1.5, 2.0, 1.5, 1.0, 1.5, b64 1.2]
   \<and> 0 \<le> fst (calculate_scam_score lib text0)
   \<and> fst (calculate_scam_score lib text0) \<le> 1
   \<and> (matched_categories lib text0 = [] \<longrightarrow> calculate_scam_score lib text0 = (0.0, []))
   \<and> (clean_text lib [] = []
        \<and> (\<forall>pattern \<in> set (concat (map snd SCAM_PATTERNS)).
              re_findall lib pattern True [] = []) \<longrightarrow>
        calculate_scam_score lib [] = (0.0, []))"
proof -
  have none: "calculate_scam_score lib s = (0.0, [])" if "matched_categories lib s = []" for s
    unfolding calculate_scam_score_eq [of lib s] using that by (simp add: float_sum_def)
  have empty: "calculate_scam_score lib [] = (0.0, [])"
    if "clean_text lib [] = []
        \<and> (\<forall>pattern \<in> set (concat (map snd SCAM_PATTERNS)).
              re_findall lib pattern True [] = [])"
    using that empty_text_no_matches [of lib] none [of "[]"] by blast
  have score: "fst (calculate_scam_score lib text0) =
     min (float_sum (map (\<lambda>c.
            min (fmul (fmul (float_of_int (int (hit_count lib text0 c)))
                         (get_default CATEGORY_WEIGHTS c 1.0)) (b64 0.1)) (b64 0.3))
          (matched_categories lib text0))) 1.0"
    unfolding calculate_scam_score_eq [of lib text0] by (rule fst_conv)
  have reasons: "snd (calculate_scam_score lib text0) =
       map (\<lambda>c. \<lparr> reason_category = c,
              reason_hits = map match_text (category_matches lib text0 c),
              reason_contribution =
                min (fmul (fmul (float_of_int (int (hit_count lib text0 c)))
                             (get_default CATEGORY_WEIGHTS c 1.0)) (b64 0.1)) (b64 0.3) \<rparr>)
         (matched_categories lib text0)"
    unfolding calculate_scam_score_eq [of lib text0] by (rule snd_conv)
  show ?thesis
    using score reasons CATEGORY_WEIGHTS_table calculate_scam_score_bounds [of lib text0]
      none [of text0] empty
    by blast
qed

theorem C8_pattern_matcher_score_witness:
  "fst (calculate_scam_score example_lib ''urgent official'') = 7926335344172073 / 2 ^ 55
   \<and> map reason_category (snd (calculate_scam_score example_lib ''urgent official'')) =
       [''urgency'', ''impersonation'']
   \<and> matched_categories example_lib [] = []
   \<and> calculate_scam_score example_lib [] = (0.0, [])"
proof -
  have e: "matched_categories example_lib [] = []"
    by (rule empty_text_no_matches) (simp_all add: clean_text_def example_lib_def)
  have v: "fst (calculate_scam_score example_lib ''urgent official'') = 7926335344172073 / 2 ^ 55"
    using C8_pattern_matcher_score [of example_lib "''urgent official''", THEN conjunct1]
    by (simp add: matched_categories_example example_weights
        float_sum_def fadd_def fmul_def float_of_int_def b64_values)
  have r: "map reason_category (snd (calculate_scam_score example_lib ''urgent official'')) =
       [''urgency'', ''impersonation'']"
    using C8_pattern_matcher_score [of example_lib "''urgent official''", THEN conjunct2,
        THEN conjunct1]
    by (simp add: matched_categories_example)
  have n: "calculate_scam_score example_lib [] = (0.0, [])"
    using C8_pattern_matcher_score [of example_lib "[]"] e by blast
  from v r e n show ?thesis
    by blast
qed

section \<open>Properties of the scam detection model\<close>

lemma predict_fields:
  "rule_score (predict lib self text0) = fst (calculate_scam_score lib text0)"
  "ml_score (predict lib self text0) = fst (calculate_scam_score lib text0)"
  "scam_probability (predict lib self text0) =
     fadd (fmul (fst (calculate_scam_score lib text0)) (b64 0.6))
       (fmul (fst (calculate_scam_score lib text0)) (b64 0.4))"
  by (simp_all add: predict_def Let_def split_def)

lemma scale_err:
  fixes r c d u :: real
  assumes "0 \<le> r" "r \<le> 1" "\<bar>c - d\<bar> \<le> u"
  shows "\<bar>r * c - r * d\<bar> \<le> u"
proof -
  have "\<bar>r * (c - d)\<bar> = \<bar>r\<bar> * \<bar>c - d\<bar>"
    by (rule abs_mult)
  also have "\<dots> \<le> 1 * u"
    using assms by (intro mult_mono) auto
  finally show ?thesis
    by (simp add: right_diff_distrib)
qed

lemma combine_error:
  assumes "0 \<le> r" "r \<le> 1"
  shows "\<bar>fadd (fmul r (b64 0.6)) (fmul r (b64 0.4)) - r\<bar> \<le> 5 * 2 powi (- 53)"
proof -
  define u :: real where "u = 2 powi (- 53)"
  have u: "0 < u" "u \<le> 1 / 100"
    by (simp_all add: u_def power_int_minus)
  define c6 where "c6 = b64 0.6"
  define c4 where "c4 = b64 0.4"
  have c6: "\<bar>c6 - 0.6\<bar> \<le> u"
    unfolding c6_def u_def by (rule b64_abs_err) simp
  have c4: "\<bar>c4 - 0.4\<bar> \<le> u"
    unfolding c4_def u_def by (rule b64_abs_err) simp
  have p6: "0 \<le> r * c6" "r * c6 \<le> c6" "\<bar>r * c6 - r * 0.6\<bar> \<le> u"
  proof -
    from c6 u have "0 \<le> c6" by linarith
    with assms show "0 \<le> r * c6" "r * c6 \<le> c6"
      by (simp_all add: mult_left_le_one_le)
    show "\<bar>r * c6 - r * 0.6\<bar> \<le> u"
      using assms c6 by (rule scale_err)
  qed
  have p4: "0 \<le> r * c4" "r * c4 \<le> c4" "\<bar>r * c4 - r * 0.4\<bar> \<le> u"
  proof -
    from c4 u have "0 \<le> c4" by linarith
    with assms show "0 \<le> r * c4" "r * c4 \<le> c4"
      by (simp_all add: mult_left_le_one_le)
    show "\<bar>r * c4 - r * 0.4\<bar> \<le> u"
      using assms c4 by (rule scale_err)
  qed
  define a where "a = fmul r c6"
  define b where "b = fmul r c4"
  have a: "\<bar>a - r * c6\<bar> \<le> u"
    unfolding a_def fmul_def u_def by (rule b64_abs_err) (use p6 c6 u in linarith)
  have b: "\<bar>b - r * c4\<bar> \<le> u"
    unfolding b_def fmul_def u_def by (rule b64_abs_err) (use p4 c4 u in linarith)
  have s: "\<bar>fadd a b - (a + b)\<bar> \<le> u"
    unfolding fadd_def u_def by (rule b64_abs_err) (use a b p6 p4 c6 c4 u in linarith)
  have "r * 0.6 + r * 0.4 = r"
    by (simp add: algebra_simps)
  with s a b p6(3) p4(3) have "\<bar>fadd a b - r\<bar> \<le> 5 * u"
    by linarith
  then show ?thesis
    by (simp add: a_def b_def c6_def c4_def u_def)
qed

text \<open>
  C10, as the code has it. For every input text, \<^verbatim>\<open>ml_score\<close> is the rule score,
  whether or not a model is loaded, and the rule score is the value of
  \<^const>\<open>calculate_scam_score\<close>. The reported \<^verbatim>\<open>scam_probability\<close> is the float
  expression \<^verbatim>\<open>rule_score * 0.6 + rule_score * 0.4\<close>: two rounded products and a
  rounded sum, which is the rule score up to rounding, within \<open>2 powi (- 50)\<close> of it.
\<close>

theorem C10_predict_rounds_rule_score:
  "ml_score (predict lib self text0) = rule_score (predict lib self text0)
   \<and> rule_score (predict lib self text0) = fst (calculate_scam_score lib text0)
   \<and> scam_probability (predict lib self text0) =
       fadd (fmul (rule_score (predict lib self text0)) (b64 0.6))
         (fmul (rule_score (predict lib self text0)) (b64 0.4))
   \<and> \<bar>scam_probability (predict lib self text0) - rule_score (predict lib self text0)\<bar>
       \<le> 2 powi (- 50)"
proof -
  have "\<bar>scam_probability (predict lib self text0) - rule_score (predict lib self text0)\<bar>
      \<le> 5 * 2 powi (- 53)"
    unfolding predict_fields
    using calculate_scam_score_bounds [of lib text0] by (intro combine_error) auto
  also have "(5::real) * 2 powi (- 53) \<le> 2 powi (- 50)"
    by (simp add: power_int_minus)
  finally show ?thesis
    by (simp add: predict_fields)
qed

text \<open>The claim as the spec words it makes \<^verbatim>\<open>scam_probability\<close> equal to the rule
  score. On the text \<open>urgent official\<close> the rule score is the binary64 number 0.22 and
  the reported probability is the next binary64 number, 0.22000000000000003.\<close>

theorem C10_scam_probability_counterexample:
  "rule_score (predict example_lib (ScamDetectionModel_init (\<lambda>p. False) None) ''urgent official'')
     = 7926335344172073 / 2 ^ 55
   \<and> scam_probability
       (predict example_lib (ScamDetectionModel_init (\<lambda>p. False) None) ''urgent official'')
     = 7926335344172074 / 2 ^ 55
   \<and> scam_probability
       (predict example_lib (ScamDetectionModel_init (\<lambda>p. False) None) ''urgent official'')
     \<noteq> rule_score
       (predict example_lib (ScamDetectionModel_init (\<lambda>p. False) None) ''urgent official'')"
  by (simp add: predict_fields calculate_scam_score_example fadd_def fmul_def b64_values)

section \<open>Properties of the confidence scorer and of the scoring core\<close>

lemma reachable_thresholds:
  "reachable self \<Longrightarrow>
   thresholds self \<in> {(0.95, 0.3), (0.98, 0.4), (0.92, 0.35), (0.90, 0.3)}"
  by (induction rule: reachable.induct)
     (simp_all add: thresholds_def ConfidenceScorer_init_def adjust_thresholds_def)

lemma reachable_reject_below_approve:
  "reachable self \<Longrightarrow> auto_reject_threshold self < auto_approve_threshold self"
  using reachable_thresholds [of self] by (auto simp add: thresholds_def)

lemma getitem_score_weights:
  "getitem score_weights ''ocr_quality'' = Some (b64 0.2)"
  "getitem score_weights ''authenticity'' = Some (b64 0.4)"
  "getitem score_weights ''validation'' = Some 0.25"
  "getitem score_weights ''cross_reference'' = Some (b64 0.15)"
  by (simp_all add: getitem_def score_weights_def)


lemma calculate_score_returns:
  "calculate_score self now ocr_result forgery_result validation_result cross_reference \<noteq> None"
proof (cases cross_reference)
  case None
  then show ?thesis
    by (simp add: calculate_score_def getitem_score_weights Let_def)
next
  case (Some d)
  then show ?thesis
    by (cases d) (simp_all add: calculate_score_def getitem_score_weights Let_def)
qed

lemma calculate_score_decision:
  "calculate_score self now ocr_result forgery_result validation_result cross_reference = Some r \<Longrightarrow>
   decision r = make_decision self (overall_score r) forgery_result
   \<and> requires_manual_review r = (decision r = ''review'')
   \<and> auto_approved r = (decision r = ''approve'')
   \<and> auto_rejected r = (decision r = ''reject'')
   \<and> timestamp r = now"
  by (auto simp add: calculate_score_def Let_def split: bind_splits)



text \<open>
  C5. The decision of a verification-confidence result is \<^const>\<open>make_decision\<close> of its
  overall score (\<^const>\<open>calculate_score\<close> always returns), and: it is \<open>reject\<close> whenever
  forgery is detected, whatever the score; otherwise it is \<open>approve\<close> if and only if the
  score is at least the auto-approve threshold, \<open>reject\<close> if the score is below the
  auto-reject threshold, and \<open>review\<close> in every remaining case. The reject case is stated
  twice: for any scorer when the score is below both thresholds, and for every scorer the
  code can build (where the auto-reject threshold is below the auto-approve threshold)
  when the score is below the auto-reject threshold.
\<close>

theorem C5_decision:
  "(fr_forgery_detected forgery_result = Some True \<longrightarrow>
      make_decision self score forgery_result = ''reject'')
   \<and> (fr_forgery_detected forgery_result \<noteq> Some True \<longrightarrow>
        (make_decision self score forgery_result = ''approve''
           \<longleftrightarrow> score \<ge> auto_approve_threshold self)
        \<and> (score < auto_approve_threshold self \<and> score < auto_reject_threshold self \<longrightarrow>
             make_decision self score forgery_result = ''reject'')
        \<and> (score < auto_approve_threshold self \<and> auto_reject_threshold self \<le> score \<longrightarrow>
             make_decision self score forgery_result = ''review''))
   \<and> (reachable self \<and> fr_forgery_detected forgery_result \<noteq> Some True
        \<and> score < auto_reject_threshold self \<longrightarrow>
        make_decision self score forgery_result = ''reject'')
   \<and> (\<exists>r. calculate_score self now ocr_result forgery_result validation_result cross_reference
          = Some r
        \<and> decision r = make_decision self (overall_score r) forgery_result)"
proof -
  have forged: "make_decision self score forgery_result = ''reject''"
    if "fr_forgery_detected forgery_result = Some True"
    using that by (simp add: make_decision_def)
  have approve: "make_decision self score forgery_result = ''approve''
      \<longleftrightarrow> score \<ge> auto_approve_threshold self"
    if "fr_forgery_detected forgery_result \<noteq> Some True"
    using that by (simp add: make_decision_def)
  have reject: "make_decision self score forgery_result = ''reject''"
    if "fr_forgery_detected forgery_result \<noteq> Some True"
      "score < auto_approve_threshold self" "score < auto_reject_threshold self"
    using that by (simp add: make_decision_def)
  have review: "make_decision self score forgery_result = ''review''"
    if "fr_forgery_detected forgery_result \<noteq> Some True"
      "score < auto_approve_threshold self" "auto_reject_threshold self \<le> score"
    using that by (simp add: make_decision_def)
  have reject': "make_decision self score forgery_result = ''reject''"
    if "reachable self" "fr_forgery_detected forgery_result \<noteq> Some True"
      "score < auto_reject_threshold self"
  proof -
    from that(1) have "auto_reject_threshold self < auto_approve_threshold self"
      by (rule reachable_reject_below_approve)
    with that(3) have "score < auto_approve_threshold self"
      by simp
    with that show ?thesis
      by (simp add: reject)
  qed
  have result: "\<exists>r. calculate_score self now ocr_result forgery_result validation_result
        cross_reference = Some r
      \<and> decision r = make_decision self (overall_score r) forgery_result"
    using calculate_score_returns [of self now ocr_result forgery_result validation_result
        cross_reference]
      calculate_score_decision [of self now ocr_result forgery_result validation_result
        cross_reference]
    by auto
  show ?thesis
    using forged approve reject review reject' result by blast
qed

theorem C5_decision_witness:
  "make_decision ConfidenceScorer_init 0.99 \<lparr> fr_confidence = Some 0.9, fr_forgery_detected = Some True \<rparr>
     = ''reject''
   \<and> make_decision ConfidenceScorer_init 0.96 example_forgery = ''approve''
   \<and> make_decision ConfidenceScorer_init 0.2 example_forgery = ''reject''
   \<and> make_decision ConfidenceScorer_init 0.5 example_forgery = ''review''"
  using C5_decision [where forgery_result =
        "\<lparr> fr_confidence = Some 0.9, fr_forgery_detected = Some True \<rparr>"
      and self = ConfidenceScorer_init and score = "0.99"]
    C5_decision [where forgery_result = example_forgery and self = ConfidenceScorer_init
      and score = "0.96"]
    C5_decision [where forgery_result = example_forgery and self = ConfidenceScorer_init
      and score = "0.2"]
    C5_decision [where forgery_result = example_forgery and self = ConfidenceScorer_init
      and score = "0.5"]
    reachable_init
  by (simp add: example_forgery_def ConfidenceScorer_init_def)

text \<open>
  C6, as the code has it. After \<open>adjust_thresholds document_type\<close> the thresholds
  (auto-approve, auto-reject) are (0.98, 0.40) for passport, cnic and bank_statement,
  (0.92, 0.35) for degree and experience_letter, and (0.90, 0.30) for every other document
  type; a scorer on which \<^verbatim>\<open>adjust_thresholds\<close> was never called has the thresholds
  (0.95, 0.30) of \<^verbatim>\<open>__init__\<close>.
\<close>

theorem C6_thresholds:
  "thresholds (adjust_thresholds document_type self) =
     (if document_type \<in> {''passport'', ''cnic'', ''bank_statement''} then (0.98, 0.40)
      else if document_type \<in> {''degree'', ''experience_letter''} then (0.92, 0.35)
      else (0.90, 0.30))
   \<and> thresholds ConfidenceScorer_init = (0.95, 0.30)"
  by (simp add: thresholds_def adjust_thresholds_def ConfidenceScorer_init_def)

theorem C6_thresholds_witness:
  "thresholds (adjust_thresholds ''passport'' ConfidenceScorer_init) = (0.98, 0.40)
   \<and> thresholds (adjust_thresholds ''degree'' ConfidenceScorer_init) = (0.92, 0.35)
   \<and> thresholds (adjust_thresholds ''visa'' ConfidenceScorer_init) = (0.90, 0.30)"
  using C6_thresholds [of "''passport''" ConfidenceScorer_init]
    C6_thresholds [of "''degree''" ConfidenceScorer_init]
    C6_thresholds [of "''visa''" ConfidenceScorer_init]
  by simp

text \<open>The claim as the spec words it gives (0.90, 0.30) also when no type-specific
  adjustment is made; the fresh scorer has (0.95, 0.30).\<close>

theorem C6_unadjusted_thresholds_counterexample:
  "thresholds ConfidenceScorer_init = (0.95, 0.30)
   \<and> thresholds ConfidenceScorer_init \<noteq> (0.90, 0.30)"
  by (simp add: thresholds_def ConfidenceScorer_init_def)









end
